theory Spec2Isabelle
  imports Main "HOL-Library.Word" "HOL-Library.Multiset"
begin

section \<open>Data model of App.tsx\<close>

text \<open>
  JavaScript strings are sequences of UTF-16 code units. The text a user types (task text,
  notes) is kept as such a sequence, because \<open>String.prototype.trim\<close> is defined on code
  units. Identifiers and timestamps are opaque: the handlers only compare them or pass
  them on, so they are plain strings.
\<close>

type_synonym js_string = "16 word list"

text \<open>
  \<open>interface Task\<close>. The fields \<open>id\<close>, \<open>text\<close> and \<open>notes\<close> are written
  \<open>task_id\<close>, \<open>task_text\<close> and \<open>task_notes\<close>.
\<close>

record task =
  task_id :: string
  task_text :: js_string
  task_notes :: js_string
  priority :: int
  user_id :: string
  created_at :: string

datatype sort_type = Priority | Age

datatype sort_order = Asc | Desc

text \<open>
  The \<open>useState\<close> cells of \<open>App\<close> that the data handlers read or write. \<open>user\<close> is the
  session user reduced to its \<open>id\<close>, the only field read; \<open>None\<close> is \<open>null\<close>. The state
  cell \<open>notes\<close> is written \<open>notesBuffer\<close>.
\<close>

record app =
  user :: "string option"
  tasks :: "task list"
  newTask :: js_string
  selectedTask :: "task option"
  notesBuffer :: js_string
  sortType :: sort_type
  sortOrder :: sort_order

section \<open>formatTaskAge\<close>

definition digit_char :: "nat \<Rightarrow> char" where
  "digit_char d = ''0123456789'' ! (d mod 10)"

fun string_of_nat :: "nat \<Rightarrow> string" where
  "string_of_nat n =
     (if n < 10 then [digit_char n] else string_of_nat (n div 10) @ [digit_char (n mod 10)])"

declare string_of_nat.simps [simp del]

text \<open>
  The template literal's conversion of an integral number to its decimal text (the
  exponent notation of JavaScript starts at \<open>1e21\<close>, far above any difference of two
  time values).
\<close>

definition number_to_string :: "int \<Rightarrow> string" where
  "number_to_string i =
     (if i < 0 then ''-'' @ string_of_nat (nat (- i)) else string_of_nat (nat i))"

text \<open>
  \<open>formatTaskAge\<close>. The parser behind \<open>new Date(createdAt).getTime()\<close> and the clock
  \<open>Date.now()\<close> are parameters: \<open>parseDate\<close> gives the time value in milliseconds, or
  \<open>None\<close> for the \<open>NaN\<close> of an invalid date, and \<open>now\<close> is the clock's reading. Time
  values are integral, so \<open>Math.floor\<close> of a quotient is \<open>div\<close>. With \<open>NaN\<close> every
  comparison is false and the last template is reached.
\<close>

definition formatTaskAge :: "(string \<Rightarrow> int option) \<Rightarrow> int \<Rightarrow> string \<Rightarrow> string" where
  "formatTaskAge parseDate now createdAt =
     (case parseDate createdAt of
        None \<Rightarrow> ''NaN months ago''
      | Some created \<Rightarrow>
          (let diffMinutes = (now - created) div (1000 * 60) in
           if diffMinutes < 60 then
             (if diffMinutes < 1 then ''Just now''
              else number_to_string diffMinutes @ '' minute''
                   @ (if diffMinutes = 1 then [] else ''s'') @ '' ago'')
           else
             (let diffHours = diffMinutes div 60 in
              if diffHours < 24 then
                number_to_string diffHours @ '' hour''
                @ (if diffHours = 1 then [] else ''s'') @ '' ago''
              else
                (let diffDays = diffHours div 24 in
                 if diffDays < 30 then
                   number_to_string diffDays @ '' day''
                   @ (if diffDays = 1 then [] else ''s'') @ '' ago''
                 else
                   (let diffMonths = diffDays div 30 in
                    number_to_string diffMonths @ '' month''
                    @ (if diffMonths = 1 then [] else ''s'') @ '' ago'')))))"

section \<open>Sorting and navigation\<close>

text \<open>\<open>toggleSort\<close>: two state setters, the second one functional.\<close>

definition toggleSort :: "app \<Rightarrow> app" where
  "toggleSort s =
     (if sortType s = Priority then s\<lparr>sortType := Age, sortOrder := Desc\<rparr>
      else s\<lparr>sortOrder := (if sortOrder s = Asc then Desc else Asc)\<rparr>)"

text \<open>\<open>Array.prototype.findIndex\<close>: the first index whose element satisfies \<open>p\<close>, or \<open>-1\<close>.\<close>

fun findIndex :: "('a \<Rightarrow> bool) \<Rightarrow> 'a list \<Rightarrow> int" where
  "findIndex p [] = - 1"
| "findIndex p (x # xs) =
     (if p x then 0 else (let r = findIndex p xs in if r = - 1 then - 1 else r + 1))"

datatype direction = Next | Prev

text \<open>
  \<open>getAdjacentTask\<close>; \<open>None\<close> is \<open>null\<close>. The index computed is within the list, so the
  read \<open>tasks[newIndex]\<close> is a task.
\<close>

definition getAdjacentTask :: "direction \<Rightarrow> app \<Rightarrow> task option" where
  "getAdjacentTask dir s =
     (case selectedTask s of
        None \<Rightarrow> None
      | Some sel \<Rightarrow>
          if length (tasks s) = 0 then None
          else
            (let currentIndex = findIndex (\<lambda>t. task_id t = task_id sel) (tasks s) in
             if currentIndex = - 1 then None
             else
               (let newIndex =
                      (if dir = Next then (currentIndex + 1) mod int (length (tasks s))
                       else (currentIndex - 1 + int (length (tasks s))) mod int (length (tasks s)))
                in Some (tasks s ! nat newIndex))))"

section \<open>The remote store and the effects of a handler\<close>

text \<open>
  The hosted store is outside the repository. It is a parameter: a state of any type
  \<open>'r\<close> and one answering function for each of the four query shapes the handlers build.
  An answer is the \<open>{ data, error }\<close> pair of the client library, with a set \<open>error\<close> on
  the left (a rejected promise is caught by the same \<open>catch\<close> and is an error too). An
  insert ends in \<open>.select().single()\<close>, which answers with the created row or an error; of
  an update or a delete only the error is read.
\<close>

record new_row =
  row_text :: js_string
  row_notes :: js_string
  row_priority :: int
  row_user_id :: string

datatype patch = Set_notes js_string | Set_priority int

datatype call =
    Select string bool
  | Insert new_row
  | Update patch string
  | Delete string

record 'r remote =
  select_all :: "string \<Rightarrow> bool \<Rightarrow> 'r \<Rightarrow> (string + task list option) \<times> 'r"
  insert_one :: "new_row \<Rightarrow> 'r \<Rightarrow> (string + task) \<times> 'r"
  update_one :: "patch \<Rightarrow> string \<Rightarrow> 'r \<Rightarrow> string option \<times> 'r"
  delete_one :: "string \<Rightarrow> 'r \<Rightarrow> string option \<times> 'r"

datatype js_error = Remote_error string | TypeError

text \<open>
  What a handler touches beside the React state: the store, the calls it has issued (each
  with the error it came back with, \<open>None\<close> for success) and the lines of \<open>console.error\<close>.
\<close>

record 'r world =
  store :: 'r
  trace :: "(call \<times> string option) list"
  console :: "(string \<times> js_error) list"

definition error_of :: "string + 'a \<Rightarrow> string option" where
  "error_of res = (case res of Inl e \<Rightarrow> Some e | Inr _ \<Rightarrow> None)"

definition request_select ::
  "'r remote \<Rightarrow> string \<Rightarrow> bool \<Rightarrow> 'r world \<Rightarrow> (string + task list option) \<times> 'r world" where
  "request_select R col asc w =
     (case select_all R col asc (store w) of
        (res, r') \<Rightarrow> (res, w\<lparr>store := r', trace := trace w @ [(Select col asc, error_of res)]\<rparr>))"

definition request_insert ::
  "'r remote \<Rightarrow> new_row \<Rightarrow> 'r world \<Rightarrow> (string + task) \<times> 'r world" where
  "request_insert R row w =
     (case insert_one R row (store w) of
        (res, r') \<Rightarrow> (res, w\<lparr>store := r', trace := trace w @ [(Insert row, error_of res)]\<rparr>))"

definition request_update ::
  "'r remote \<Rightarrow> patch \<Rightarrow> string \<Rightarrow> 'r world \<Rightarrow> string option \<times> 'r world" where
  "request_update R p ident w =
     (case update_one R p ident (store w) of
        (err, r') \<Rightarrow> (err, w\<lparr>store := r', trace := trace w @ [(Update p ident, err)]\<rparr>))"

definition request_delete ::
  "'r remote \<Rightarrow> string \<Rightarrow> 'r world \<Rightarrow> string option \<times> 'r world" where
  "request_delete R ident w =
     (case delete_one R ident (store w) of
        (err, r') \<Rightarrow> (err, w\<lparr>store := r', trace := trace w @ [(Delete ident, err)]\<rparr>))"

definition log_error :: "string \<Rightarrow> js_error \<Rightarrow> 'r world \<Rightarrow> 'r world" where
  "log_error label e w = w\<lparr>console := console w @ [(label, e)]\<rparr>"

section \<open>The data handlers\<close>

text \<open>\<open>fetchTasks\<close>; \<open>data ?? []\<close> turns a \<open>null\<close> result into the empty list.\<close>

definition fetchTasks :: "'r remote \<Rightarrow> app \<times> 'r world \<Rightarrow> app \<times> 'r world" where
  "fetchTasks R = (\<lambda>(s, w).
     case user s of
       None \<Rightarrow> (s, w)
     | Some _ \<Rightarrow>
         (case request_select R (if sortType s = Priority then ''priority'' else ''created_at'')
                 (sortOrder s = Asc) w of
            (Inl e, w') \<Rightarrow> (s, log_error ''Error fetching tasks:'' (Remote_error e) w')
          | (Inr data, w') \<Rightarrow>
              (s\<lparr>tasks := (case data of None \<Rightarrow> [] | Some rows \<Rightarrow> rows)\<rparr>, w')))"

text \<open>
  The code units that \<open>String.prototype.trim\<close> strips: the WhiteSpace and LineTerminator
  productions of ECMAScript.
\<close>

definition isWhiteSpace :: "16 word \<Rightarrow> bool" where
  "isWhiteSpace c \<longleftrightarrow>
     c \<in> {0x0009, 0x000A, 0x000B, 0x000C, 0x000D, 0x0020, 0x00A0, 0x1680,
          0x2028, 0x2029, 0x202F, 0x205F, 0x3000, 0xFEFF}
     \<or> (0x2000 \<le> c \<and> c \<le> 0x200A)"

definition trim :: "js_string \<Rightarrow> js_string" where
  "trim str = rev (dropWhile isWhiteSpace (rev (dropWhile isWhiteSpace str)))"

text \<open>\<open>addTask\<close>; a string is falsy exactly when it is empty.\<close>

definition addTask :: "'r remote \<Rightarrow> app \<times> 'r world \<Rightarrow> app \<times> 'r world" where
  "addTask R = (\<lambda>(s, w).
     if trim (newTask s) = [] then (s, w)
     else
       (case user s of
          None \<Rightarrow> (s, w)
        | Some uid \<Rightarrow>
            (case request_insert R
                    \<lparr>row_text = newTask s, row_notes = [],
                     row_priority = int (length (tasks s)), row_user_id = uid\<rparr> w of
               (Inl e, w') \<Rightarrow> (s, log_error ''Error adding task:'' (Remote_error e) w')
             | (Inr data, w') \<Rightarrow> (s\<lparr>tasks := tasks s @ [data], newTask := []\<rparr>, w'))))"

text \<open>\<open>removeTask\<close>; \<open>selectedTask?.id === id\<close> is false when nothing is selected.\<close>

definition removeTask :: "'r remote \<Rightarrow> string \<Rightarrow> app \<times> 'r world \<Rightarrow> app \<times> 'r world" where
  "removeTask R ident = (\<lambda>(s, w).
     case request_delete R ident w of
       (Some e, w') \<Rightarrow> (s, log_error ''Error removing task:'' (Remote_error e) w')
     | (None, w') \<Rightarrow>
         (let s1 = s\<lparr>tasks := filter (\<lambda>t. task_id t \<noteq> ident) (tasks s)\<rparr> in
          if map_option task_id (selectedTask s) = Some ident
          then (s1\<lparr>selectedTask := None, notesBuffer := []\<rparr>, w')
          else (s1, w')))"

text \<open>\<open>updateNotes\<close>.\<close>

definition updateNotes :: "'r remote \<Rightarrow> js_string \<Rightarrow> app \<times> 'r world \<Rightarrow> app \<times> 'r world" where
  "updateNotes R newNotes = (\<lambda>(s, w).
     case selectedTask s of
       None \<Rightarrow> (s, w)
     | Some sel \<Rightarrow>
         (case request_update R (Set_notes newNotes) (task_id sel) w of
            (Some e, w') \<Rightarrow> (s, log_error ''Error updating notes:'' (Remote_error e) w')
          | (None, w') \<Rightarrow>
              (s\<lparr>notesBuffer := newNotes,
                 tasks := map (\<lambda>t. if task_id t = task_id sel
                                    then t\<lparr>task_notes := newNotes\<rparr> else t) (tasks s)\<rparr>,
               w')))"

section \<open>Reordering\<close>

text \<open>
  \<open>Array.prototype.splice\<close>, in the two shapes used below. \<open>splice_start\<close> is the clamped
  start index: a negative start counts from the end.
\<close>

definition splice_start :: "nat \<Rightarrow> int \<Rightarrow> nat" where
  "splice_start len start =
     (if start < 0 then nat (max (int len + start) 0) else nat (min start (int len)))"

text \<open>\<open>xs.splice(start, 1)\<close>: the removed elements (at most one) and what is left of \<open>xs\<close>.\<close>

definition splice_delete1 :: "'a list \<Rightarrow> int \<Rightarrow> 'a list \<times> 'a list" where
  "splice_delete1 xs start =
     (let k = splice_start (length xs) start in (take 1 (drop k xs), take k xs @ drop (k + 1) xs))"

text \<open>\<open>xs.splice(start, 0, item)\<close>: \<open>xs\<close> with \<open>item\<close> inserted.\<close>

definition splice_insert :: "'a list \<Rightarrow> int \<Rightarrow> 'a \<Rightarrow> 'a list" where
  "splice_insert xs start item =
     (let k = splice_start (length xs) start in take k xs @ [item] @ drop k xs)"

text \<open>
  Modelled from the spec: \<open>arrayMove\<close> is imported from the package @dnd-kit/sortable and its
  body is not in the repository. The spec describes it as moving the item at the old
  position to the new position, a stable relocation of a single element in which all the
  others keep their relative order. The definition is the package's way of doing that: a
  copy of the array, from which \<open>splice(from, 1)\<close> takes the item out and a second
  \<open>splice(to, 0, item)\<close> puts it back, where a negative \<open>to\<close> has the length of the full copy
  added (the arguments are evaluated before the item is taken out). The result holds
  \<open>None\<close> for \<open>undefined\<close>, which is what is inserted when the first splice removed
  nothing.
\<close>

definition arrayMove :: "'a list \<Rightarrow> int \<Rightarrow> int \<Rightarrow> 'a option list" where
  "arrayMove array from to =
     (let newArray = map Some array;
          start = (if to < 0 then int (length newArray) + to else to)
      in case splice_delete1 newArray from of
           (removed, rest) \<Rightarrow>
             splice_insert rest start (case removed of [] \<Rightarrow> None | item # _ \<Rightarrow> item))"

text \<open>
  The loop of \<open>handleDragEnd\<close> over \<open>newTasks.entries()\<close>, from index \<open>index\<close> on. It stops
  at the first update that reports an error, which it returns. Reading \<open>task.id\<close> of
  \<open>undefined\<close> throws a TypeError before any request is made.
\<close>

fun update_priorities ::
  "'r remote \<Rightarrow> int \<Rightarrow> task option list \<Rightarrow> 'r world \<Rightarrow> js_error option \<times> 'r world" where
  "update_priorities R index [] w = (None, w)"
| "update_priorities R index (None # rest) w = (Some TypeError, w)"
| "update_priorities R index (Some t # rest) w =
     (case request_update R (Set_priority index) (task_id t) w of
        (Some e, w') \<Rightarrow> (Some (Remote_error e), w')
      | (None, w') \<Rightarrow> update_priorities R (index + 1) rest w')"

text \<open>
  The argument of \<open>onDragEnd\<close>, reduced to the two identifiers read; \<open>over\<close> is \<open>null\<close> when
  the item is dropped outside every droppable.
\<close>

record drag_end_event =
  active :: string
  over :: "string option"

text \<open>
  \<open>handleDragEnd\<close>. Reading \<open>over.id\<close> of \<open>null\<close> throws outside the \<open>try\<close> block: the
  promise is rejected (\<open>Inl\<close>) and nothing has been done. After a loop without error every
  entry of \<open>newTasks\<close> is a task.
\<close>

definition handleDragEnd ::
  "'r remote \<Rightarrow> drag_end_event \<Rightarrow> app \<times> 'r world \<Rightarrow> js_error + app \<times> 'r world" where
  "handleDragEnd R event = (\<lambda>(s, w).
     case over event of
       None \<Rightarrow> Inl TypeError
     | Some over_id \<Rightarrow>
         if active event \<noteq> over_id then
           (let oldIndex = findIndex (\<lambda>t. task_id t = active event) (tasks s);
                newIndex = findIndex (\<lambda>t. task_id t = over_id) (tasks s);
                newTasks = arrayMove (tasks s) oldIndex newIndex
            in case update_priorities R 0 newTasks w of
                 (Some e, w') \<Rightarrow> Inr (s, log_error ''Error updating priorities:'' e w')
               | (None, w') \<Rightarrow> Inr (s\<lparr>tasks := map the newTasks\<rparr>, w'))
         else Inr (s, w))"

section \<open>The interface as a whole\<close>

text \<open>
  The events that reach the handlers above: the authentication listener, the effect that
  refetches, and the \<open>onChange\<close>, \<open>onClick\<close>, \<open>onKeyDown\<close> and \<open>onDragEnd\<close> properties of
  the rendered elements.
\<close>

datatype action =
    Auth_change "string option"
  | Effect_fetch
  | Change_newTask js_string
  | Submit_newTask
  | Click_remove string
  | Click_select task
  | Change_notes js_string
  | Drag_end drag_end_event
  | Click_toggleSort
  | Click_adjacent direction

text \<open>
  Selecting a task (a click on its row, or the previous and next buttons) runs
  \<open>setSelectedTask(task); setNotes(task.notes)\<close>.
\<close>

definition select_task :: "task \<Rightarrow> app \<Rightarrow> app" where
  "select_task t s = s\<lparr>selectedTask := Some t, notesBuffer := task_notes t\<rparr>"

text \<open>
  One event, handled to completion. A drag end whose promise is rejected has changed
  nothing; the previous and next buttons select the adjacent task when there is one.
\<close>

fun perform :: "'r remote \<Rightarrow> action \<Rightarrow> app \<times> 'r world \<Rightarrow> app \<times> 'r world" where
  "perform R (Auth_change u) (s, w) = (s\<lparr>user := u\<rparr>, w)"
| "perform R Effect_fetch (s, w) = fetchTasks R (s, w)"
| "perform R (Change_newTask v) (s, w) = (s\<lparr>newTask := v\<rparr>, w)"
| "perform R Submit_newTask (s, w) = addTask R (s, w)"
| "perform R (Click_remove ident) (s, w) = removeTask R ident (s, w)"
| "perform R (Click_select t) (s, w) = (select_task t s, w)"
| "perform R (Change_notes v) (s, w) = updateNotes R v (s, w)"
| "perform R (Drag_end event) (s, w) =
     (case handleDragEnd R event (s, w) of Inl _ \<Rightarrow> (s, w) | Inr sw \<Rightarrow> sw)"
| "perform R Click_toggleSort (s, w) = (toggleSort s, w)"
| "perform R (Click_adjacent dir) (s, w) =
     (case getAdjacentTask dir s of None \<Rightarrow> (s, w) | Some t \<Rightarrow> (select_task t s, w))"

fun run :: "'r remote \<Rightarrow> action list \<Rightarrow> app \<times> 'r world \<Rightarrow> app \<times> 'r world" where
  "run R [] sw = sw"
| "run R (a # as) sw = run R as (perform R a sw)"

section \<open>Sample data\<close>

definition example_parseDate :: "string \<Rightarrow> int option" where
  "example_parseDate str =
     (if str = ''2025-04-07T14:39:02Z'' then Some 1744036742000 else None)"

definition example_task :: "string \<Rightarrow> int \<Rightarrow> task" where
  "example_task ident p =
     \<lparr>task_id = ident, task_text = [0x61], task_notes = [], priority = p,
      user_id = ''u1'', created_at = ''2025-04-07T14:39:02Z''\<rparr>"

definition example_app :: app where
  "example_app =
     \<lparr>user = Some ''u1'',
      tasks = [example_task ''a'' 0, example_task ''b'' 1, example_task ''c'' 2],
      newTask = [0x20, 0x78], selectedTask = Some (example_task ''c'' 2), notesBuffer = [],
      sortType = Priority, sortOrder = Asc\<rparr>"

text \<open>
  A store that counts down: it accepts a call while its counter is positive and refuses
  every call once the counter is 0.
\<close>

definition example_remote :: "nat remote" where
  "example_remote =
     \<lparr>select_all = (\<lambda>col asc n. if n = 0 then (Inl ''refused'', 0) else (Inr (Some []), n - 1)),
      insert_one = (\<lambda>row n.
         if n = 0 then (Inl ''refused'', 0)
         else (Inr \<lparr>task_id = ''new'', task_text = row_text row, task_notes = row_notes row,
                     priority = row_priority row, user_id = row_user_id row,
                     created_at = ''2025-04-07T14:39:02Z''\<rparr>, n - 1)),
      update_one = (\<lambda>p ident n. if n = 0 then (Some ''refused'', 0) else (None, n - 1)),
      delete_one = (\<lambda>ident n. if n = 0 then (Some ''refused'', 0) else (None, n - 1))\<rparr>"

definition example_world :: "nat \<Rightarrow> nat world" where
  "example_world n = \<lparr>store = n, trace = [], console = []\<rparr>"

definition example_actions :: "action list" where
  "example_actions =
     [Change_newTask [0x20, 0x3000], Submit_newTask, Change_newTask [0x20, 0x78], Submit_newTask]"

definition example_drag :: drag_end_event where
  "example_drag = \<lparr>active = ''a'', over = Some ''c''\<rparr>"

text \<open>A store that keeps the rows in a list and carries out every call.\<close>

definition example_table :: "task list remote" where
  "example_table =
     \<lparr>select_all = (\<lambda>col asc rows. (Inr (Some rows), rows)),
      insert_one = (\<lambda>row rows.
         (Inr \<lparr>task_id = ''new'', task_text = row_text row, task_notes = row_notes row,
               priority = row_priority row, user_id = row_user_id row,
               created_at = ''2025-04-07T14:39:02Z''\<rparr>, rows)),
      update_one = (\<lambda>p ident rows.
         (None, map (\<lambda>t. if task_id t = ident
                          then (case p of Set_notes n \<Rightarrow> t\<lparr>task_notes := n\<rparr>
                                | Set_priority q \<Rightarrow> t\<lparr>priority := q\<rparr>)
                          else t) rows)),
      delete_one = (\<lambda>ident rows. (None, filter (\<lambda>t. task_id t \<noteq> ident) rows))\<rparr>"

definition example_table_world :: "task list world" where
  "example_table_world = \<lparr>store = tasks example_app, trace = [], console = []\<rparr>"

section \<open>Lemmas\<close>

lemma findIndex_range: "findIndex p xs = - 1 \<or> (0 \<le> findIndex p xs \<and> findIndex p xs < int (length xs))"
  by (induction xs) (auto simp: Let_def)

lemma findIndex_none_iff: "findIndex p xs = - 1 \<longleftrightarrow> (\<forall>x \<in> set xs. \<not> p x)"
proof (induction xs)
  case Nil
  show ?case by simp
next
  case (Cons x xs)
  have "findIndex p xs \<noteq> - 1 \<Longrightarrow> findIndex p xs + 1 \<noteq> - 1"
    using findIndex_range [of p xs] by arith
  with Cons show ?case by (auto simp: Let_def)
qed

lemma findIndex_first:
  "i < length xs \<Longrightarrow> p (xs ! i) \<Longrightarrow> (\<forall>j < i. \<not> p (xs ! j)) \<Longrightarrow> findIndex p xs = int i"
proof (induction xs arbitrary: i)
  case Nil
  then show ?case by simp
next
  case (Cons x xs)
  show ?case
  proof (cases i)
    case 0
    with Cons.prems show ?thesis by simp
  next
    case (Suc k)
    from Cons.prems Suc have k: "k < length xs" "p (xs ! k)" by simp_all
    from Cons.prems(3) Suc have "\<not> p ((x # xs) ! 0)" by blast
    then have nx: "\<not> p x" by simp
    have "\<forall>j < k. \<not> p (xs ! j)"
    proof (intro allI impI)
      fix j assume "j < k"
      then have "Suc j < i" using Suc by simp
      with Cons.prems(3) have "\<not> p ((x # xs) ! Suc j)" by blast
      then show "\<not> p (xs ! j)" by simp
    qed
    with Cons.IH k have "findIndex p xs = int k" by blast
    with nx Suc show ?thesis by (simp add: Let_def)
  qed
qed

lemma splice_start_nat: "k \<le> len \<Longrightarrow> splice_start len (int k) = k"
  by (simp add: splice_start_def min_def)

lemma splice_delete1_in_range:
  assumes "i < length xs"
  shows "splice_delete1 xs (int i) = ([xs ! i], take i xs @ drop (Suc i) xs)"
proof -
  have k: "splice_start (length xs) (int i) = i"
    using assms by (simp add: splice_start_nat)
  have "drop i xs = xs ! i # drop (Suc i) xs"
    using assms by (simp add: Cons_nth_drop_Suc)
  then have "take 1 (drop i xs) = [xs ! i]" by simp
  with k show ?thesis by (simp add: splice_delete1_def)
qed

lemma splice_insert_in_range:
  "j \<le> length xs \<Longrightarrow> splice_insert xs (int j) item = take j xs @ [item] @ drop j xs"
  by (simp add: splice_insert_def splice_start_nat)

lemma arrayMove_in_range:
  assumes "i < length xs" and "j < length xs"
  shows "arrayMove xs (int i) (int j) =
           map Some (take j (take i xs @ drop (Suc i) xs) @ [xs ! i]
                     @ drop j (take i xs @ drop (Suc i) xs))"
proof -
  let ?ys = "take i xs @ drop (Suc i) xs"
  have d: "splice_delete1 (map Some xs) (int i) = ([Some (xs ! i)], map Some ?ys)"
    using assms(1) splice_delete1_in_range [of i "map Some xs"]
    by (simp add: take_map drop_map)
  have len: "length ?ys = length xs - 1" using assms(1) by simp
  then have "j \<le> length (map Some ?ys)" using assms(2) by simp
  then have "splice_insert (map Some ?ys) (int j) (Some (xs ! i)) =
               take j (map Some ?ys) @ [Some (xs ! i)] @ drop j (map Some ?ys)"
    by (rule splice_insert_in_range)
  also have "\<dots> = map Some (take j ?ys @ [xs ! i] @ drop j ?ys)"
    by (simp add: take_map drop_map)
  finally show ?thesis
    using d by (simp add: arrayMove_def)
qed

lemma upt_0_Suc: "[0..<Suc n] = 0 # map Suc [0..<n]"
  by (metis map_Suc_upt upt_conv_Cons zero_less_Suc)

lemma map_upt_0_Suc: "map f [0..<Suc n] = f 0 # map (\<lambda>k. f (Suc k)) [0..<n]"
  by (simp only: upt_0_Suc list.map map_map o_def)

lemma request_update_trace:
  "request_update R p ident w = (err, w') \<Longrightarrow>
     trace w' = trace w @ [(Update p ident, err)] \<and> console w' = console w"
  by (auto simp: request_update_def split: prod.splits)

lemma update_priorities_success:
  "update_priorities R index ots w = (None, w') \<Longrightarrow>
     (\<forall>ot \<in> set ots. ot \<noteq> None) \<and> console w' = console w \<and>
     trace w' = trace w @
       map (\<lambda>k. (Update (Set_priority (index + int k)) (task_id (the (ots ! k))), None))
           [0..<length ots]"
proof (induction R index ots w rule: update_priorities.induct)
  case (1 R index w)
  then show ?case by simp
next
  case (2 R index rest w)
  then show ?case by simp
next
  case (3 R index t rest w)
  from "3.prems" obtain w1 where
    r: "request_update R (Set_priority index) (task_id t) w = (None, w1)" and
    u: "update_priorities R (index + 1) rest w1 = (None, w')"
    by (auto split: prod.splits option.splits)
  note ih = "3.IH" [OF r [symmetric] refl u]
  have tr: "trace w1 = trace w @ [(Update (Set_priority index) (task_id t), None)]"
    and co: "console w1 = console w"
    using request_update_trace [OF r] by simp_all
  have sh: "map (\<lambda>k. (Update (Set_priority (index + int k)) (task_id (the ((Some t # rest) ! k))), None))
               [0..<Suc (length rest)] =
             (Update (Set_priority index) (task_id t), None) #
             map (\<lambda>k. (Update (Set_priority (index + 1 + int k)) (task_id (the (rest ! k))), None))
               [0..<length rest]"
    by (simp add: map_upt_0_Suc add.assoc del: upt_Suc)
  from ih have "trace w' = trace w1 @
      map (\<lambda>k. (Update (Set_priority (index + 1 + int k)) (task_id (the (rest ! k))), None))
        [0..<length rest]"
    by blast
  then have "trace w' = trace w @
      map (\<lambda>k. (Update (Set_priority (index + int k)) (task_id (the ((Some t # rest) ! k))), None))
        [0..<Suc (length rest)]"
    unfolding sh tr by simp
  moreover from ih have "\<forall>ot \<in> set (Some t # rest). ot \<noteq> None" by simp
  moreover from ih co have "console w' = console w" by simp
  ultimately show ?case by (simp only: list.size length_Cons) simp
qed

lemma update_priorities_failure:
  "update_priorities R index ots w = (Some e, w') \<Longrightarrow>
     console w' = console w \<and>
     (\<exists>n < length ots.
        (\<forall>k < n. ots ! k \<noteq> None) \<and>
        (case ots ! n of
           None \<Rightarrow> e = TypeError \<and>
             trace w' = trace w @
               map (\<lambda>k. (Update (Set_priority (index + int k)) (task_id (the (ots ! k))), None))
                   [0..<n]
         | Some t \<Rightarrow> \<exists>msg. e = Remote_error msg \<and>
             trace w' = trace w @
               map (\<lambda>k. (Update (Set_priority (index + int k)) (task_id (the (ots ! k))), None))
                   [0..<n]
               @ [(Update (Set_priority (index + int n)) (task_id t), Some msg)]))"
proof (induction R index ots w rule: update_priorities.induct)
  case (1 R index w)
  then show ?case by simp
next
  case (2 R index rest w)
  then have "e = TypeError" "w' = w" by simp_all
  then show ?case by (auto intro!: exI [of _ 0])
next
  case (3 R index t rest w)
  obtain err w1 where r: "request_update R (Set_priority index) (task_id t) w = (err, w1)"
    by (cases "request_update R (Set_priority index) (task_id t) w")
  have tr: "trace w1 = trace w @ [(Update (Set_priority index) (task_id t), err)]"
    and co: "console w1 = console w"
    using request_update_trace [OF r] by simp_all
  show ?case
  proof (cases err)
    case (Some msg)
    with r "3.prems" have "e = Remote_error msg" "w' = w1" by simp_all
    with tr co Some show ?thesis by (auto intro!: exI [of _ 0])
  next
    case None
    with r "3.prems" have u: "update_priorities R (index + 1) rest w1 = (Some e, w')" by simp
    from "3.IH" [OF r [symmetric, unfolded None] refl u]
    obtain n where n: "n < length rest" "\<forall>k < n. rest ! k \<noteq> None"
      and c: "console w' = console w1"
      and cs: "case rest ! n of
           None \<Rightarrow> e = TypeError \<and>
             trace w' = trace w1 @
               map (\<lambda>k. (Update (Set_priority (index + 1 + int k)) (task_id (the (rest ! k))), None))
                   [0..<n]
         | Some t \<Rightarrow> \<exists>msg. e = Remote_error msg \<and>
             trace w' = trace w1 @
               map (\<lambda>k. (Update (Set_priority (index + 1 + int k)) (task_id (the (rest ! k))), None))
                   [0..<n]
               @ [(Update (Set_priority (index + 1 + int n)) (task_id t), Some msg)]"
      by blast
    have sh: "map (\<lambda>k. (Update (Set_priority (index + int k)) (task_id (the ((Some t # rest) ! k))), None))
               [0..<Suc n] =
             (Update (Set_priority index) (task_id t), None) #
             map (\<lambda>k. (Update (Set_priority (index + 1 + int k)) (task_id (the (rest ! k))), None))
               [0..<n]"
      by (simp add: map_upt_0_Suc add.assoc del: upt_Suc)
    have all: "\<forall>k < Suc n. (Some t # rest) ! k \<noteq> None"
      using n(2) by (auto simp: nth_Cons split: nat.splits)
    have "case (Some t # rest) ! Suc n of
           None \<Rightarrow> e = TypeError \<and>
             trace w' = trace w @
               map (\<lambda>k. (Update (Set_priority (index + int k)) (task_id (the ((Some t # rest) ! k))), None))
                   [0..<Suc n]
         | Some t' \<Rightarrow> \<exists>msg. e = Remote_error msg \<and>
             trace w' = trace w @
               map (\<lambda>k. (Update (Set_priority (index + int k)) (task_id (the ((Some t # rest) ! k))), None))
                   [0..<Suc n]
               @ [(Update (Set_priority (index + int (Suc n))) (task_id t'), Some msg)]"
      using cs tr None unfolding sh by (auto split: option.splits simp: add.assoc)
    with n(1) all c co show ?thesis
      by (intro conjI exI [of _ "Suc n"]) simp_all
  qed
qed

section \<open>Age labels\<close>

lemma div_window: "0 \<le> r \<Longrightarrow> r < 60000 \<Longrightarrow> (m * 60000 + r) div 60000 = (m::int)"
  by simp

lemma number_to_string_small:
  "number_to_string 1 = ''1''" "number_to_string 23 = ''23''" "number_to_string 59 = ''59''"
  by (simp_all add: number_to_string_def string_of_nat.simps digit_char_def)

lemma formatTaskAge_minutes:
  assumes "parseDate createdAt = Some created" "0 \<le> r" "r < 60000"
  shows "formatTaskAge parseDate (created + m * 60000 + r) createdAt =
    (if m < 60 then (if m < 1 then ''Just now'' else number_to_string m @ '' minute'' @ (if m = 1 then [] else ''s'') @ '' ago'')
     else if m div 60 < 24 then number_to_string (m div 60) @ '' hour'' @ (if m div 60 = 1 then [] else ''s'') @ '' ago''
     else if m div 60 div 24 < 30 then number_to_string (m div 60 div 24) @ '' day'' @ (if m div 60 div 24 = 1 then [] else ''s'') @ '' ago''
     else number_to_string (m div 60 div 24 div 30) @ '' month'' @ (if m div 60 div 24 div 30 = 1 then [] else ''s'') @ '' ago'')"
proof -
  have "(created + m * 60000 + r - created) div (1000 * 60) = m"
    using div_window [OF assms(2,3), of m] by simp
  then show ?thesis
    using assms(1) by (simp add: formatTaskAge_def Let_def)
qed

text \<open>
  Claim C6. Whatever the creation time and however many milliseconds (fewer than a whole
  minute) have passed beyond the stated age, the label is: "Just now" at 0 minutes,
  "59 minutes ago" at 59 minutes, "1 hour ago" at 60 minutes, "23 hours ago" at 23 hours
  59 minutes, "1 day ago" at 24 hours and "1 month ago" at 30 days.
\<close>

theorem formatTaskAge_boundaries:
  assumes "parseDate createdAt = Some created" and "0 \<le> r" and "r < 60000"
  shows "formatTaskAge parseDate (created + r) createdAt = ''Just now'' \<and>
         formatTaskAge parseDate (created + 59 * 60000 + r) createdAt = ''59 minutes ago'' \<and>
         formatTaskAge parseDate (created + 60 * 60000 + r) createdAt = ''1 hour ago'' \<and>
         formatTaskAge parseDate (created + (23 * 60 + 59) * 60000 + r) createdAt = ''23 hours ago'' \<and>
         formatTaskAge parseDate (created + 24 * 60 * 60000 + r) createdAt = ''1 day ago'' \<and>
         formatTaskAge parseDate (created + 30 * 24 * 60 * 60000 + r) createdAt = ''1 month ago''"
proof -
  have m: "\<And>m. formatTaskAge parseDate (created + m * 60000 + r) createdAt =
    (if m < 60 then (if m < 1 then ''Just now'' else number_to_string m @ '' minute'' @ (if m = 1 then [] else ''s'') @ '' ago'')
     else if m div 60 < 24 then number_to_string (m div 60) @ '' hour'' @ (if m div 60 = 1 then [] else ''s'') @ '' ago''
     else if m div 60 div 24 < 30 then number_to_string (m div 60 div 24) @ '' day'' @ (if m div 60 div 24 = 1 then [] else ''s'') @ '' ago''
     else number_to_string (m div 60 div 24 div 30) @ '' month'' @ (if m div 60 div 24 div 30 = 1 then [] else ''s'') @ '' ago'')"
    using assms by (rule formatTaskAge_minutes)
  have "formatTaskAge parseDate (created + r) createdAt = ''Just now''"
    using m [of 0] by simp
  moreover have "formatTaskAge parseDate (created + 59 * 60000 + r) createdAt = ''59 minutes ago''"
    using m [of 59] by (simp add: number_to_string_small)
  moreover have "formatTaskAge parseDate (created + 60 * 60000 + r) createdAt = ''1 hour ago''"
    using m [of 60] by (simp add: number_to_string_small)
  moreover have "formatTaskAge parseDate (created + (23 * 60 + 59) * 60000 + r) createdAt = ''23 hours ago''"
    using m [of "23 * 60 + 59"] by (simp add: number_to_string_small)
  moreover have "formatTaskAge parseDate (created + 24 * 60 * 60000 + r) createdAt = ''1 day ago''"
    using m [of "24 * 60"] by (simp add: number_to_string_small)
  moreover have "formatTaskAge parseDate (created + 30 * 24 * 60 * 60000 + r) createdAt = ''1 month ago''"
    using m [of "30 * 24 * 60"] by (simp add: number_to_string_small)
  ultimately show ?thesis by blast
qed

theorem formatTaskAge_boundaries_witness:
  "example_parseDate ''2025-04-07T14:39:02Z'' = Some 1744036742000 \<and> (0::int) \<le> 59999 \<and> (59999::int) < 60000 \<and>
   formatTaskAge example_parseDate (1744036742000 + 59999) ''2025-04-07T14:39:02Z'' = ''Just now'' \<and>
   formatTaskAge example_parseDate (1744036742000 + 59 * 60000 + 59999) ''2025-04-07T14:39:02Z'' = ''59 minutes ago'' \<and>
   formatTaskAge example_parseDate (1744036742000 + 60 * 60000 + 59999) ''2025-04-07T14:39:02Z'' = ''1 hour ago'' \<and>
   formatTaskAge example_parseDate (1744036742000 + (23 * 60 + 59) * 60000 + 59999) ''2025-04-07T14:39:02Z'' = ''23 hours ago'' \<and>
   formatTaskAge example_parseDate (1744036742000 + 24 * 60 * 60000 + 59999) ''2025-04-07T14:39:02Z'' = ''1 day ago'' \<and>
   formatTaskAge example_parseDate (1744036742000 + 30 * 24 * 60 * 60000 + 59999) ''2025-04-07T14:39:02Z'' = ''1 month ago''"
proof -
  have p: "example_parseDate ''2025-04-07T14:39:02Z'' = Some 1744036742000"
    by (simp add: example_parseDate_def)
  have lo: "(0::int) \<le> 59999" and hi: "(59999::int) < 60000" by simp_all
  from formatTaskAge_boundaries [of example_parseDate "''2025-04-07T14:39:02Z''" 1744036742000 59999, OF p lo hi] p lo hi
  show ?thesis by blast
qed

section \<open>Sort toggling\<close>

lemma toggleSort_lands_on_Age: "sortType (toggleSort s) = Age"
  by (cases "sortType s") (simp_all add: toggleSort_def)

lemma toggleSort_iter_Age: "0 < n \<Longrightarrow> sortType ((toggleSort ^^ n) s) = Age"
  by (cases n) (simp_all add: toggleSort_lands_on_Age)

text \<open>
  Claim C5. In priority mode a toggle switches to age mode with descending order and
  changes nothing else. In age mode a toggle changes only the direction, to the other
  one, and the mode stays age after any number of toggles. From any state, hence from
  priority mode, the mode is age after one or more toggles.
\<close>

theorem toggleSort_cycle:
  "(sortType s = Priority \<longrightarrow> toggleSort s = s\<lparr>sortType := Age, sortOrder := Desc\<rparr>) \<and>
   (sortType s = Age \<longrightarrow>
      toggleSort s = s\<lparr>sortOrder := (if sortOrder s = Asc then Desc else Asc)\<rparr> \<and>
      sortOrder (toggleSort s) \<noteq> sortOrder s \<and>
      (\<forall>n. sortType ((toggleSort ^^ n) s) = Age)) \<and>
   (\<forall>n. 0 < n \<longrightarrow> sortType ((toggleSort ^^ n) s) = Age)"
proof (intro conjI impI allI)
  assume "sortType s = Priority"
  then show "toggleSort s = s\<lparr>sortType := Age, sortOrder := Desc\<rparr>"
    by (simp add: toggleSort_def)
next
  assume "sortType s = Age"
  then show "toggleSort s = s\<lparr>sortOrder := (if sortOrder s = Asc then Desc else Asc)\<rparr>"
    by (simp add: toggleSort_def)
next
  assume "sortType s = Age"
  then show "sortOrder (toggleSort s) \<noteq> sortOrder s"
    by (cases "sortOrder s") (simp_all add: toggleSort_def)
next
  fix n assume a: "sortType s = Age"
  show "sortType ((toggleSort ^^ n) s) = Age"
    using a toggleSort_iter_Age [of n s] by (cases n) simp_all
next
  fix n :: nat assume "0 < n"
  then show "sortType ((toggleSort ^^ n) s) = Age" by (rule toggleSort_iter_Age)
qed

theorem toggleSort_cycle_witness:
  "sortType example_app = Priority \<and>
   toggleSort example_app = example_app\<lparr>sortType := Age, sortOrder := Desc\<rparr> \<and>
   sortType (toggleSort example_app) = Age \<and>
   toggleSort (toggleSort example_app) = example_app\<lparr>sortType := Age, sortOrder := Asc\<rparr> \<and>
   sortOrder (toggleSort (toggleSort example_app)) \<noteq> sortOrder (toggleSort example_app) \<and>
   (0::nat) < 3 \<and> sortType ((toggleSort ^^ 3) example_app) = Age"
proof -
  have p: "sortType example_app = Priority" by (simp add: example_app_def)
  have a: "sortType (toggleSort example_app) = Age"
    using toggleSort_cycle [of example_app] p by simp
  have d: "sortOrder (toggleSort example_app) = Desc"
    using toggleSort_cycle [of example_app] p by simp
  have "toggleSort (toggleSort example_app) = (toggleSort example_app)\<lparr>sortOrder := Asc\<rparr>"
    using toggleSort_cycle [of "toggleSort example_app"] a d by simp
  moreover have "toggleSort example_app = example_app\<lparr>sortType := Age, sortOrder := Desc\<rparr>"
    using toggleSort_cycle [of example_app] p by simp
  moreover have "sortOrder (toggleSort (toggleSort example_app)) \<noteq> sortOrder (toggleSort example_app)"
    using toggleSort_cycle [of "toggleSort example_app"] a by blast
  moreover have "sortType ((toggleSort ^^ 3) example_app) = Age"
    using toggleSort_cycle [of example_app] by simp
  ultimately show ?thesis using p a by simp
qed

section \<open>Navigation between tasks\<close>

lemma getAdjacentTask_index:
  assumes "selectedTask s = Some sel" and "i < length (tasks s)"
    and "task_id (tasks s ! i) = task_id sel"
    and "\<forall>j<i. task_id (tasks s ! j) \<noteq> task_id sel"
  shows "getAdjacentTask dir s =
           Some (tasks s ! (if dir = Next then (i + 1) mod length (tasks s)
                            else (i + length (tasks s) - 1) mod length (tasks s)))"
proof -
  let ?n = "length (tasks s)"
  have f: "findIndex (\<lambda>t. task_id t = task_id sel) (tasks s) = int i"
    using assms(2-4) by (intro findIndex_first) simp_all
  have ne: "?n \<noteq> 0" using assms(2) by (cases "tasks s") simp_all
  have "(int i + 1) mod int ?n = int ((i + 1) mod ?n)"
    by (simp add: zmod_int ac_simps)
  then have n: "nat ((int i + 1) mod int ?n) = (i + 1) mod ?n"
    by simp
  have "int i - 1 + int ?n = int (i + ?n - 1)"
    using assms(2) by (simp add: of_nat_diff)
  then have "(int i - 1 + int ?n) mod int ?n = int ((i + ?n - 1) mod ?n)"
    by (simp only: zmod_int)
  then have p: "nat ((int i - 1 + int ?n) mod int ?n) = (i + ?n - 1) mod ?n"
    by (simp only: nat_int)
  have nx: "getAdjacentTask Next s = Some (tasks s ! nat ((int i + 1) mod int ?n))"
    using assms(1) ne f by (simp add: getAdjacentTask_def Let_def)
  have pv: "getAdjacentTask Prev s = Some (tasks s ! nat ((int i - 1 + int ?n) mod int ?n))"
    using assms(1) ne f by (simp add: getAdjacentTask_def Let_def)
  show ?thesis
  proof (cases dir)
    case Next
    with nx n show ?thesis by simp
  next
    case Prev
    with pv p show ?thesis by (simp only: direction.distinct if_False)
  qed
qed

lemma getAdjacentTask_None_iff:
  "getAdjacentTask dir s = None \<longleftrightarrow>
     (selectedTask s = None \<or> tasks s = [] \<or>
      (\<exists>sel. selectedTask s = Some sel \<and> task_id sel \<notin> task_id ` set (tasks s)))"
proof (cases "selectedTask s")
  case None
  then show ?thesis by (simp add: getAdjacentTask_def)
next
  case (Some sel)
  have "findIndex (\<lambda>t. task_id t = task_id sel) (tasks s) = - 1 \<longleftrightarrow>
          task_id sel \<notin> task_id ` set (tasks s)"
    unfolding findIndex_none_iff by (auto simp: image_iff)
  with Some show ?thesis
    by (auto simp: getAdjacentTask_def Let_def)
qed

text \<open>
  Claim C9. When a task is selected and \<open>i\<close> is the first index of the list holding a task
  with the selected identifier, "next" is the task at index \<open>(i + 1) mod length\<close> and
  "prev" the task at index \<open>(i - 1 + length) mod length\<close>. The result is \<open>null\<close> exactly
  when nothing is selected, the list is empty, or no task of the list has the selected
  identifier.
\<close>

theorem getAdjacentTask_cyclic:
  "(selectedTask s = Some sel \<and> i < length (tasks s) \<and> task_id (tasks s ! i) = task_id sel \<and>
    (\<forall>j<i. task_id (tasks s ! j) \<noteq> task_id sel) \<longrightarrow>
      getAdjacentTask Next s = Some (tasks s ! ((i + 1) mod length (tasks s))) \<and>
      getAdjacentTask Prev s = Some (tasks s ! ((i + length (tasks s) - 1) mod length (tasks s)))) \<and>
   (getAdjacentTask dir s = None \<longleftrightarrow>
      (selectedTask s = None \<or> tasks s = [] \<or>
       (\<exists>sel'. selectedTask s = Some sel' \<and> task_id sel' \<notin> task_id ` set (tasks s))))"
  using getAdjacentTask_index [of s sel i Next] getAdjacentTask_index [of s sel i Prev]
    getAdjacentTask_None_iff [of dir s]
  by simp

theorem getAdjacentTask_cyclic_witness:
  "selectedTask example_app = Some (example_task ''c'' 2) \<and>
   (2::nat) < length (tasks example_app) \<and>
   task_id (tasks example_app ! 2) = task_id (example_task ''c'' 2) \<and>
   task_id (tasks example_app ! 0) \<noteq> task_id (example_task ''c'' 2) \<and>
   task_id (tasks example_app ! 1) \<noteq> task_id (example_task ''c'' 2) \<and>
   getAdjacentTask Next example_app = Some (example_task ''a'' 0) \<and>
   getAdjacentTask Prev example_app = Some (example_task ''b'' 1) \<and>
   getAdjacentTask Next (example_app\<lparr>selectedTask := None\<rparr>) = None"
proof -
  have h: "selectedTask example_app = Some (example_task ''c'' 2) \<and>
           (2::nat) < length (tasks example_app) \<and>
           task_id (tasks example_app ! 2) = task_id (example_task ''c'' 2) \<and>
           (\<forall>j<2. task_id (tasks example_app ! j) \<noteq> task_id (example_task ''c'' 2))"
    by (simp add: example_app_def example_task_def numeral_2_eq_2 All_less_Suc)
  have "getAdjacentTask Next example_app = Some (tasks example_app ! ((2 + 1) mod length (tasks example_app)))"
    and "getAdjacentTask Prev example_app =
           Some (tasks example_app ! ((2 + length (tasks example_app) - 1) mod length (tasks example_app)))"
    using getAdjacentTask_cyclic [of example_app "example_task ''c'' 2" 2 Next] h by blast+
  then have "getAdjacentTask Next example_app = Some (example_task ''a'' 0)"
    and "getAdjacentTask Prev example_app = Some (example_task ''b'' 1)"
    by (simp_all add: example_app_def)
  moreover have "getAdjacentTask Next (example_app\<lparr>selectedTask := None\<rparr>) = None"
    using getAdjacentTask_cyclic [of "example_app\<lparr>selectedTask := None\<rparr>" "example_task ''c'' 2" 2 Next]
    by simp
  moreover have "task_id (tasks example_app ! 0) \<noteq> task_id (example_task ''c'' 2)"
    and "task_id (tasks example_app ! 1) \<noteq> task_id (example_task ''c'' 2)"
    by (simp_all add: example_app_def example_task_def)
  ultimately show ?thesis using h by blast
qed

section \<open>Failure of a remote call\<close>

lemma trim_empty_iff: "trim str = [] \<longleftrightarrow> (\<forall>u \<in> set str. isWhiteSpace u)"
proof -
  have "trim str = [] \<longleftrightarrow> (\<forall>u \<in> set (dropWhile isWhiteSpace str). isWhiteSpace u)"
    by (simp only: trim_def rev_is_Nil_conv dropWhile_eq_Nil_conv set_rev)
  also have "\<dots> \<longleftrightarrow> dropWhile isWhiteSpace str = []"
  proof
    assume a: "\<forall>u \<in> set (dropWhile isWhiteSpace str). isWhiteSpace u"
    show "dropWhile isWhiteSpace str = []"
    proof (rule ccontr)
      assume ne: "dropWhile isWhiteSpace str \<noteq> []"
      then have "\<not> isWhiteSpace (hd (dropWhile isWhiteSpace str))" by (rule hd_dropWhile)
      moreover from ne have "hd (dropWhile isWhiteSpace str) \<in> set (dropWhile isWhiteSpace str)"
        by (rule hd_in_set)
      ultimately show False using a by blast
    qed
  next
    assume "dropWhile isWhiteSpace str = []"
    then show "\<forall>u \<in> set (dropWhile isWhiteSpace str). isWhiteSpace u"
      by (simp del: dropWhile_eq_Nil_conv)
  qed
  also have "\<dots> \<longleftrightarrow> (\<forall>u \<in> set str. isWhiteSpace u)"
    by (simp add: dropWhile_eq_Nil_conv)
  finally show ?thesis .
qed

lemma request_select_trace:
  "request_select R col asc w = (res, w') \<Longrightarrow>
     trace w' = trace w @ [(Select col asc, error_of res)] \<and> console w' = console w"
  by (auto simp: request_select_def split: prod.splits)

lemma request_insert_trace:
  "request_insert R row w = (res, w') \<Longrightarrow>
     trace w' = trace w @ [(Insert row, error_of res)] \<and> console w' = console w"
  by (auto simp: request_insert_def split: prod.splits)

lemma request_delete_trace:
  "request_delete R ident w = (err, w') \<Longrightarrow>
     trace w' = trace w @ [(Delete ident, err)] \<and> console w' = console w"
  by (auto simp: request_delete_def split: prod.splits)

lemma trace_log_error [simp]: "trace (log_error label e w) = trace w"
  by (simp add: log_error_def)

lemma fetchTasks_cases:
  assumes "fetchTasks R (s, w) = (s', w')"
  shows "(s' = s \<and> w' = w) \<or>
         (\<exists>c e. s' = s \<and> trace w' = trace w @ [(c, Some e)]) \<or>
         (\<exists>c. trace w' = trace w @ [(c, None)])"
proof (cases "user s")
  case None
  with assms show ?thesis by (simp add: fetchTasks_def)
next
  case (Some uid)
  let ?col = "if sortType s = Priority then ''priority'' else ''created_at''"
  obtain res w1 where r: "request_select R ?col (sortOrder s = Asc) w = (res, w1)"
    by (cases "request_select R ?col (sortOrder s = Asc) w")
  note t = request_select_trace [OF r]
  show ?thesis
  proof (cases res)
    case (Inl e)
    with assms Some r have "s' = s" "w' = log_error ''Error fetching tasks:'' (Remote_error e) w1"
      by (simp_all add: fetchTasks_def)
    with t Inl show ?thesis by (simp add: error_of_def)
  next
    case (Inr data)
    with assms Some r have "w' = w1" by (simp add: fetchTasks_def)
    with t Inr show ?thesis by (simp add: error_of_def)
  qed
qed

lemma addTask_cases:
  assumes "addTask R (s, w) = (s', w')"
  shows "(s' = s \<and> w' = w) \<or>
         (\<exists>c e. s' = s \<and> trace w' = trace w @ [(c, Some e)]) \<or>
         (\<exists>c. trace w' = trace w @ [(c, None)])"
proof (cases "trim (newTask s) = [] \<or> user s = None")
  case True
  with assms have "s' = s \<and> w' = w" by (auto simp: addTask_def split: if_splits)
  then show ?thesis by simp
next
  case False
  then obtain uid where u: "user s = Some uid" and ne: "trim (newTask s) \<noteq> []" by auto
  let ?row = "\<lparr>row_text = newTask s, row_notes = [],
               row_priority = int (length (tasks s)), row_user_id = uid\<rparr>"
  obtain res w1 where r: "request_insert R ?row w = (res, w1)"
    by (cases "request_insert R ?row w")
  note t = request_insert_trace [OF r]
  show ?thesis
  proof (cases res)
    case (Inl e)
    with assms u ne r have "s' = s" "w' = log_error ''Error adding task:'' (Remote_error e) w1"
      by (simp_all add: addTask_def)
    with t Inl show ?thesis by (simp add: error_of_def)
  next
    case (Inr data)
    with assms u ne r have "w' = w1" by (simp add: addTask_def)
    with t Inr show ?thesis by (simp add: error_of_def)
  qed
qed

lemma removeTask_cases:
  assumes "removeTask R ident (s, w) = (s', w')"
  shows "(\<exists>c e. s' = s \<and> trace w' = trace w @ [(c, Some e)]) \<or>
         (\<exists>c. trace w' = trace w @ [(c, None)])"
proof -
  obtain err w1 where r: "request_delete R ident w = (err, w1)"
    by (cases "request_delete R ident w")
  note t = request_delete_trace [OF r]
  show ?thesis
  proof (cases err)
    case (Some e)
    with assms r have "s' = s" "w' = log_error ''Error removing task:'' (Remote_error e) w1"
      by (simp_all add: removeTask_def)
    with t Some show ?thesis by simp
  next
    case None
    with assms r have "w' = w1" by (simp add: removeTask_def Let_def split: if_splits)
    with t None show ?thesis by simp
  qed
qed

lemma updateNotes_cases:
  assumes "updateNotes R newNotes (s, w) = (s', w')"
  shows "(s' = s \<and> w' = w) \<or>
         (\<exists>c e. s' = s \<and> trace w' = trace w @ [(c, Some e)]) \<or>
         (\<exists>c. trace w' = trace w @ [(c, None)])"
proof (cases "selectedTask s")
  case None
  with assms show ?thesis by (simp add: updateNotes_def)
next
  case (Some sel)
  obtain err w1 where r: "request_update R (Set_notes newNotes) (task_id sel) w = (err, w1)"
    by (cases "request_update R (Set_notes newNotes) (task_id sel) w")
  note t = request_update_trace [OF r]
  show ?thesis
  proof (cases err)
    case (Some e)
    with assms \<open>selectedTask s = Some sel\<close> r
    have "s' = s" "w' = log_error ''Error updating notes:'' (Remote_error e) w1"
      by (simp_all add: updateNotes_def)
    with t Some show ?thesis by simp
  next
    case None
    with assms \<open>selectedTask s = Some sel\<close> r have "w' = w1" by (simp add: updateNotes_def)
    with t None show ?thesis by simp
  qed
qed

text \<open>
  Claim C3. For fetch, insert, delete and notes update alike: when the call the handler
  issued comes back with an error, the React state (task list, selection, notes buffer,
  new-task input and the rest) is what it was before; and whenever one of these handlers
  changes the state, the call it issued has come back without error.
\<close>

theorem failure_leaves_state:
  "(\<forall>s' w' c e. fetchTasks R (s, w) = (s', w') \<and> trace w' = trace w @ [(c, Some e)] \<longrightarrow> s' = s) \<and>
   (\<forall>s' w' c e. addTask R (s, w) = (s', w') \<and> trace w' = trace w @ [(c, Some e)] \<longrightarrow> s' = s) \<and>
   (\<forall>s' w' c e. removeTask R ident (s, w) = (s', w') \<and> trace w' = trace w @ [(c, Some e)] \<longrightarrow> s' = s) \<and>
   (\<forall>s' w' c e. updateNotes R newNotes (s, w) = (s', w') \<and> trace w' = trace w @ [(c, Some e)] \<longrightarrow> s' = s) \<and>
   (\<forall>s' w'. (fetchTasks R (s, w) = (s', w') \<or> addTask R (s, w) = (s', w') \<or>
             removeTask R ident (s, w) = (s', w') \<or> updateNotes R newNotes (s, w) = (s', w')) \<and> s' \<noteq> s
      \<longrightarrow> (\<exists>c. trace w' = trace w @ [(c, None)]))"
proof (intro conjI allI impI)
  fix s' w' c e
  assume "fetchTasks R (s, w) = (s', w') \<and> trace w' = trace w @ [(c, Some e)]"
  then show "s' = s" using fetchTasks_cases [of R s w s' w'] by auto
next
  fix s' w' c e
  assume "addTask R (s, w) = (s', w') \<and> trace w' = trace w @ [(c, Some e)]"
  then show "s' = s" using addTask_cases [of R s w s' w'] by auto
next
  fix s' w' c e
  assume "removeTask R ident (s, w) = (s', w') \<and> trace w' = trace w @ [(c, Some e)]"
  then show "s' = s" using removeTask_cases [of R ident s w s' w'] by auto
next
  fix s' w' c e
  assume "updateNotes R newNotes (s, w) = (s', w') \<and> trace w' = trace w @ [(c, Some e)]"
  then show "s' = s" using updateNotes_cases [of R newNotes s w s' w'] by auto
next
  fix s' w'
  assume "(fetchTasks R (s, w) = (s', w') \<or> addTask R (s, w) = (s', w') \<or>
           removeTask R ident (s, w) = (s', w') \<or> updateNotes R newNotes (s, w) = (s', w')) \<and> s' \<noteq> s"
  then show "\<exists>c. trace w' = trace w @ [(c, None)]"
    using fetchTasks_cases [of R s w s' w'] addTask_cases [of R s w s' w']
      removeTask_cases [of R ident s w s' w'] updateNotes_cases [of R newNotes s w s' w']
    by blast
qed

theorem failure_leaves_state_witness:
  "trace (snd (fetchTasks example_remote (example_app, example_world 0))) =
     trace (example_world 0) @ [(Select ''priority'' True, Some ''refused'')] \<and>
   fst (fetchTasks example_remote (example_app, example_world 0)) = example_app \<and>
   trace (snd (addTask example_remote (example_app, example_world 0))) =
     trace (example_world 0) @
       [(Insert \<lparr>row_text = [0x20, 0x78], row_notes = [], row_priority = 3, row_user_id = ''u1''\<rparr>,
         Some ''refused'')] \<and>
   fst (addTask example_remote (example_app, example_world 0)) = example_app \<and>
   trace (snd (removeTask example_remote ''c'' (example_app, example_world 0))) =
     trace (example_world 0) @ [(Delete ''c'', Some ''refused'')] \<and>
   fst (removeTask example_remote ''c'' (example_app, example_world 0)) = example_app \<and>
   trace (snd (updateNotes example_remote [0x68, 0x69] (example_app, example_world 0))) =
     trace (example_world 0) @ [(Update (Set_notes [0x68, 0x69]) ''c'', Some ''refused'')] \<and>
   fst (updateNotes example_remote [0x68, 0x69] (example_app, example_world 0)) = example_app \<and>
   fst (addTask example_remote (example_app, example_world 1)) \<noteq> example_app \<and>
   (\<exists>c. trace (snd (addTask example_remote (example_app, example_world 1))) =
          trace (example_world 1) @ [(c, None)])"
proof -
  let ?sw = "(example_app, example_world 0)"
  have t1: "trace (snd (fetchTasks example_remote ?sw)) =
              trace (example_world 0) @ [(Select ''priority'' True, Some ''refused'')]"
    by (simp add: fetchTasks_def request_select_def example_remote_def example_world_def
        example_app_def error_of_def)
  have t2: "trace (snd (addTask example_remote ?sw)) =
     trace (example_world 0) @
       [(Insert \<lparr>row_text = [0x20, 0x78], row_notes = [], row_priority = 3, row_user_id = ''u1''\<rparr>,
         Some ''refused'')]"
    by (simp add: addTask_def request_insert_def example_remote_def example_world_def
        example_app_def error_of_def trim_def isWhiteSpace_def)
  have t3: "trace (snd (removeTask example_remote ''c'' ?sw)) =
     trace (example_world 0) @ [(Delete ''c'', Some ''refused'')]"
    by (simp add: removeTask_def request_delete_def example_remote_def example_world_def)
  have t4: "trace (snd (updateNotes example_remote [0x68, 0x69] ?sw)) =
     trace (example_world 0) @ [(Update (Set_notes [0x68, 0x69]) ''c'', Some ''refused'')]"
    by (simp add: updateNotes_def request_update_def example_remote_def example_world_def
        example_app_def example_task_def)
  note th = failure_leaves_state [of example_remote example_app "example_world 0" "''c''" "[0x68, 0x69]"]
  have "fst (fetchTasks example_remote ?sw) = example_app"
    using th t1 by (metis prod.collapse)
  moreover have "fst (addTask example_remote ?sw) = example_app"
    using th t2 by (metis prod.collapse)
  moreover have "fst (removeTask example_remote ''c'' ?sw) = example_app"
    using th t3 by (metis prod.collapse)
  moreover have "fst (updateNotes example_remote [0x68, 0x69] ?sw) = example_app"
    using th t4 by (metis prod.collapse)
  moreover have ne: "fst (addTask example_remote (example_app, example_world 1)) \<noteq> example_app"
    by (simp add: addTask_def request_insert_def example_remote_def example_world_def
        example_app_def error_of_def trim_def isWhiteSpace_def)
  moreover have "\<exists>c. trace (snd (addTask example_remote (example_app, example_world 1))) =
          trace (example_world 1) @ [(c, None)]"
    using failure_leaves_state [of example_remote example_app "example_world 1" "''c''" "[0x68, 0x69]"] ne
    by (metis prod.collapse)
  ultimately show ?thesis using t1 t2 t3 t4 by blast
qed


section \<open>Deleting a task\<close>

lemma removeTask_result:
  assumes "removeTask R ident (s, w) = (s', w')" and "trace w' = trace w @ [(c, None)]"
  shows "c = Delete ident \<and>
         s' = (if map_option task_id (selectedTask s) = Some ident
               then s\<lparr>tasks := filter (\<lambda>t. task_id t \<noteq> ident) (tasks s),
                      selectedTask := None, notesBuffer := []\<rparr>
               else s\<lparr>tasks := filter (\<lambda>t. task_id t \<noteq> ident) (tasks s)\<rparr>)"
proof -
  obtain err w1 where r: "request_delete R ident w = (err, w1)"
    by (cases "request_delete R ident w")
  note t = request_delete_trace [OF r]
  show ?thesis
  proof (cases err)
    case (Some e)
    with assms(1) r have "w' = log_error ''Error removing task:'' (Remote_error e) w1"
      by (simp add: removeTask_def)
    with t Some assms(2) show ?thesis by simp
  next
    case None
    with assms(1) r have "w' = w1" by (simp add: removeTask_def Let_def split: if_splits)
    with t None assms(2) have "c = Delete ident" by simp
    moreover have "removeTask R ident (s, w) =
        ((if map_option task_id (selectedTask s) = Some ident
          then s\<lparr>tasks := filter (\<lambda>t. task_id t \<noteq> ident) (tasks s),
                 selectedTask := None, notesBuffer := []\<rparr>
          else s\<lparr>tasks := filter (\<lambda>t. task_id t \<noteq> ident) (tasks s)\<rparr>), w1)"
      using r None by (auto simp: removeTask_def Let_def)
    with assms(1)
    have "s' = (if map_option task_id (selectedTask s) = Some ident
               then s\<lparr>tasks := filter (\<lambda>t. task_id t \<noteq> ident) (tasks s),
                      selectedTask := None, notesBuffer := []\<rparr>
               else s\<lparr>tasks := filter (\<lambda>t. task_id t \<noteq> ident) (tasks s)\<rparr>)"
      by simp
    ultimately show ?thesis by simp
  qed
qed

text \<open>
  Claim C4. After a delete of identifier \<open>X\<close> that the store accepted, the list is the old
  one without the tasks of identifier \<open>X\<close>; when the selected task has identifier \<open>X\<close>
  the selection is \<open>null\<close> and the notes buffer empty; otherwise (another task selected,
  or none) selection and notes buffer are unchanged. Nothing else of the state changes.
\<close>

theorem removeTask_success:
  assumes "removeTask R ident (s, w) = (s', w')" and "trace w' = trace w @ [(c, None)]"
  shows "c = Delete ident \<and>
         tasks s' = filter (\<lambda>t. task_id t \<noteq> ident) (tasks s) \<and>
         ident \<notin> task_id ` set (tasks s') \<and>
         (\<forall>sel. selectedTask s = Some sel \<and> task_id sel = ident \<longrightarrow>
            selectedTask s' = None \<and> notesBuffer s' = []) \<and>
         (\<not> (\<exists>sel. selectedTask s = Some sel \<and> task_id sel = ident) \<longrightarrow>
            selectedTask s' = selectedTask s \<and> notesBuffer s' = notesBuffer s) \<and>
         user s' = user s \<and> newTask s' = newTask s \<and>
         sortType s' = sortType s \<and> sortOrder s' = sortOrder s"
proof -
  note r = removeTask_result [OF assms]
  show ?thesis
  proof (cases "map_option task_id (selectedTask s) = Some ident")
    case True
    then have "\<exists>sel. selectedTask s = Some sel \<and> task_id sel = ident" by auto
    with r True show ?thesis by auto
  next
    case False
    then have "\<not> (\<exists>sel. selectedTask s = Some sel \<and> task_id sel = ident)" by auto
    with r False show ?thesis by auto
  qed
qed

theorem removeTask_success_witness:
  "removeTask example_remote ''c'' (example_app, example_world 1) =
     (example_app\<lparr>tasks := [example_task ''a'' 0, example_task ''b'' 1],
                  selectedTask := None, notesBuffer := []\<rparr>,
      \<lparr>store = 0, trace = [(Delete ''c'', None)], console = []\<rparr>) \<and>
   selectedTask example_app = Some (example_task ''c'' 2) \<and>
   ''c'' \<notin> task_id ` set [example_task ''a'' 0, example_task ''b'' 1] \<and>
   removeTask example_remote ''a'' (example_app, example_world 1) =
     (example_app\<lparr>tasks := [example_task ''b'' 1, example_task ''c'' 2]\<rparr>,
      \<lparr>store = 0, trace = [(Delete ''a'', None)], console = []\<rparr>) \<and>
   selectedTask (fst (removeTask example_remote ''a'' (example_app, example_world 1))) =
     Some (example_task ''c'' 2)"
proof -
  have e1: "removeTask example_remote ''c'' (example_app, example_world 1) =
     (example_app\<lparr>tasks := [example_task ''a'' 0, example_task ''b'' 1],
                  selectedTask := None, notesBuffer := []\<rparr>,
      \<lparr>store = 0, trace = [(Delete ''c'', None)], console = []\<rparr>)"
    by (simp add: removeTask_def request_delete_def example_remote_def example_world_def
        example_app_def example_task_def)
  have e2: "removeTask example_remote ''a'' (example_app, example_world 1) =
     (example_app\<lparr>tasks := [example_task ''b'' 1, example_task ''c'' 2]\<rparr>,
      \<lparr>store = 0, trace = [(Delete ''a'', None)], console = []\<rparr>)"
    by (simp add: removeTask_def request_delete_def example_remote_def example_world_def
        example_app_def example_task_def)
  have s: "selectedTask example_app = Some (example_task ''c'' 2)"
    by (simp add: example_app_def)
  have tr1: "trace \<lparr>store = 0::nat, trace = [(Delete ''c'', None)], console = []\<rparr> =
               trace (example_world 1) @ [(Delete ''c'', None)]"
    and tr2: "trace \<lparr>store = 0::nat, trace = [(Delete ''a'', None)], console = []\<rparr> =
               trace (example_world 1) @ [(Delete ''a'', None)]"
    by (simp_all add: example_world_def)
  from removeTask_success [OF e1 tr1]
  have "''c'' \<notin> task_id ` set (tasks (example_app\<lparr>tasks := [example_task ''a'' 0, example_task ''b'' 1],
                  selectedTask := None, notesBuffer := []\<rparr>))"
    by blast
  then have n: "''c'' \<notin> task_id ` set [example_task ''a'' 0, example_task ''b'' 1]" by simp
  have "\<not> (\<exists>sel. selectedTask example_app = Some sel \<and> task_id sel = ''a'')"
    by (simp add: example_app_def example_task_def)
  with removeTask_success [OF e2 tr2]
  have "selectedTask (example_app\<lparr>tasks := [example_task ''b'' 1, example_task ''c'' 2]\<rparr>) =
          selectedTask example_app"
    by blast
  with e1 e2 s n show ?thesis by simp
qed

section \<open>Creating a task\<close>

lemma request_insert_result:
  "request_insert R row w = (res, w') \<Longrightarrow> fst (insert_one R row (store w)) = res"
  by (auto simp: request_insert_def split: prod.splits)

text \<open>
  Claim C7. When \<open>addTask\<close> has issued its call and the call came back without error, the
  call was the insert of a record with the entered text, empty notes, priority equal to
  the number of tasks in the local list and the identifier of the signed-in user; the row
  the store returned is appended to the local list and the input is cleared.
\<close>

theorem addTask_success:
  assumes "addTask R (s, w) = (s', w')" and "trace w' = trace w @ [(c, None)]"
  shows "\<exists>uid data.
           user s = Some uid \<and>
           c = Insert \<lparr>row_text = newTask s, row_notes = [],
                       row_priority = int (length (tasks s)), row_user_id = uid\<rparr> \<and>
           fst (insert_one R \<lparr>row_text = newTask s, row_notes = [],
                              row_priority = int (length (tasks s)), row_user_id = uid\<rparr>
                  (store w)) = Inr data \<and>
           s' = s\<lparr>tasks := tasks s @ [data], newTask := []\<rparr>"
proof (cases "trim (newTask s) = [] \<or> user s = None")
  case True
  with assms(1) have "w' = w" by (auto simp: addTask_def split: if_splits)
  with assms(2) show ?thesis by simp
next
  case False
  then obtain uid where u: "user s = Some uid" and ne: "trim (newTask s) \<noteq> []" by auto
  let ?row = "\<lparr>row_text = newTask s, row_notes = [],
               row_priority = int (length (tasks s)), row_user_id = uid\<rparr>"
  obtain res w1 where r: "request_insert R ?row w = (res, w1)"
    by (cases "request_insert R ?row w")
  note t = request_insert_trace [OF r]
  show ?thesis
  proof (cases res)
    case (Inl e)
    with assms(1) u ne r have "w' = log_error ''Error adding task:'' (Remote_error e) w1"
      by (simp add: addTask_def)
    with t Inl assms(2) show ?thesis by (simp add: error_of_def)
  next
    case (Inr data)
    with assms(1) u ne r have "w' = w1" and s': "s' = s\<lparr>tasks := tasks s @ [data], newTask := []\<rparr>"
      by (simp_all add: addTask_def)
    with t assms(2) have c: "c = Insert ?row" by simp
    from request_insert_result [OF r] Inr
    have "fst (insert_one R ?row (store w)) = Inr data" by simp
    with u c s' show ?thesis by blast
  qed
qed

theorem addTask_success_witness:
  "addTask example_remote (example_app, example_world 1) =
     (example_app\<lparr>tasks := tasks example_app @
                     [\<lparr>task_id = ''new'', task_text = [0x20, 0x78], task_notes = [], priority = 3,
                       user_id = ''u1'', created_at = ''2025-04-07T14:39:02Z''\<rparr>],
                  newTask := []\<rparr>,
      \<lparr>store = 0, trace = [(Insert \<lparr>row_text = [0x20, 0x78], row_notes = [], row_priority = 3,
                                      row_user_id = ''u1''\<rparr>, None)], console = []\<rparr>) \<and>
   (\<exists>uid data.
      user example_app = Some uid \<and>
      fst (insert_one example_remote
             \<lparr>row_text = newTask example_app, row_notes = [],
              row_priority = int (length (tasks example_app)), row_user_id = uid\<rparr>
             (store (example_world 1))) = Inr data \<and>
      fst (addTask example_remote (example_app, example_world 1)) =
        example_app\<lparr>tasks := tasks example_app @ [data], newTask := []\<rparr>)"
proof -
  let ?w' = "\<lparr>store = 0::nat, trace = [(Insert \<lparr>row_text = [0x20, 0x78], row_notes = [], row_priority = 3,
                                      row_user_id = ''u1''\<rparr>, None)], console = []\<rparr>"
  have e: "addTask example_remote (example_app, example_world 1) =
     (example_app\<lparr>tasks := tasks example_app @
                     [\<lparr>task_id = ''new'', task_text = [0x20, 0x78], task_notes = [], priority = 3,
                       user_id = ''u1'', created_at = ''2025-04-07T14:39:02Z''\<rparr>],
                  newTask := []\<rparr>, ?w')"
    by (simp add: addTask_def request_insert_def example_remote_def example_world_def
        example_app_def error_of_def trim_def isWhiteSpace_def)
  have t: "trace ?w' = trace (example_world 1) @
             [(Insert \<lparr>row_text = [0x20, 0x78], row_notes = [], row_priority = 3,
                       row_user_id = ''u1''\<rparr>, None)]"
    by (simp add: example_world_def)
  from addTask_success [OF e t] e show ?thesis by auto
qed

section \<open>Editing notes\<close>

lemma request_update_result:
  "request_update R p ident w = (err, w') \<Longrightarrow> fst (update_one R p ident (store w)) = err"
  by (auto simp: request_update_def split: prod.splits)

text \<open>
  Claim C8. With a task selected, every notes change issues exactly one call, the update of
  the notes of the selected identifier, and keeps the state when that call reports an
  error. On success the list has the same length, a task carrying the selected identifier
  differs from before in its notes only, every other task is unchanged, the notes buffer
  holds the new notes and the other state cells are unchanged.
\<close>

theorem updateNotes_frame:
  assumes "selectedTask s = Some sel" and "updateNotes R newNotes (s, w) = (s', w')"
  shows "\<exists>err.
           trace w' = trace w @ [(Update (Set_notes newNotes) (task_id sel), err)] \<and>
           err = fst (update_one R (Set_notes newNotes) (task_id sel) (store w)) \<and>
           (err \<noteq> None \<longrightarrow> s' = s) \<and>
           (err = None \<longrightarrow>
              length (tasks s') = length (tasks s) \<and>
              (\<forall>k < length (tasks s).
                 tasks s' ! k =
                   (if task_id (tasks s ! k) = task_id sel
                    then (tasks s ! k)\<lparr>task_notes := newNotes\<rparr> else tasks s ! k)) \<and>
              notesBuffer s' = newNotes \<and> selectedTask s' = selectedTask s \<and>
              user s' = user s \<and> newTask s' = newTask s \<and>
              sortType s' = sortType s \<and> sortOrder s' = sortOrder s)"
proof -
  obtain err w1 where r: "request_update R (Set_notes newNotes) (task_id sel) w = (err, w1)"
    by (cases "request_update R (Set_notes newNotes) (task_id sel) w")
  note t = request_update_trace [OF r]
  note v = request_update_result [OF r]
  show ?thesis
  proof (cases err)
    case (Some e)
    with assms r have "s' = s" "w' = log_error ''Error updating notes:'' (Remote_error e) w1"
      by (simp_all add: updateNotes_def)
    with t v Some show ?thesis by simp
  next
    case None
    with assms r have "w' = w1"
      and s': "s' = s\<lparr>notesBuffer := newNotes,
                 tasks := map (\<lambda>t. if task_id t = task_id sel
                                    then t\<lparr>task_notes := newNotes\<rparr> else t) (tasks s)\<rparr>"
      by (simp_all add: updateNotes_def)
    with t v None show ?thesis by simp
  qed
qed

theorem updateNotes_frame_witness:
  "selectedTask example_app = Some (example_task ''c'' 2) \<and>
   updateNotes example_remote [0x68, 0x69] (example_app, example_world 1) =
     (example_app\<lparr>notesBuffer := [0x68, 0x69],
                  tasks := [example_task ''a'' 0, example_task ''b'' 1,
                            (example_task ''c'' 2)\<lparr>task_notes := [0x68, 0x69]\<rparr>]\<rparr>,
      \<lparr>store = 0, trace = [(Update (Set_notes [0x68, 0x69]) ''c'', None)], console = []\<rparr>) \<and>
   fst (update_one example_remote (Set_notes [0x68, 0x69]) ''c'' (store (example_world 1))) = None \<and>
   length (tasks (fst (updateNotes example_remote [0x68, 0x69] (example_app, example_world 1)))) = 3"
proof -
  let ?s' = "example_app\<lparr>notesBuffer := [0x68, 0x69],
                  tasks := [example_task ''a'' 0, example_task ''b'' 1,
                            (example_task ''c'' 2)\<lparr>task_notes := [0x68, 0x69]\<rparr>]\<rparr>"
  have sel: "selectedTask example_app = Some (example_task ''c'' 2)"
    by (simp add: example_app_def)
  have e: "updateNotes example_remote [0x68, 0x69] (example_app, example_world 1) =
     (?s', \<lparr>store = 0, trace = [(Update (Set_notes [0x68, 0x69]) ''c'', None)], console = []\<rparr>)"
    by (simp add: updateNotes_def request_update_def example_remote_def example_world_def
        example_app_def example_task_def)
  have ok: "fst (update_one example_remote (Set_notes [0x68, 0x69]) ''c'' (store (example_world 1))) = None"
    by (simp add: example_remote_def example_world_def)
  from updateNotes_frame [OF sel e] ok
  have "length (tasks ?s') = length (tasks example_app)"
    by (auto simp: example_task_def)
  then have "length (tasks (fst (updateNotes example_remote [0x68, 0x69] (example_app, example_world 1)))) = 3"
    unfolding e by (simp add: example_app_def)
  with sel e ok show ?thesis by blast
qed

section \<open>The guard of task creation\<close>

lemma update_priorities_inserts:
  "(Insert row, e) \<in> set (trace (snd (update_priorities R index ots w))) \<Longrightarrow>
     (Insert row, e) \<in> set (trace w)"
proof (induction R index ots w rule: update_priorities.induct)
  case (1 R index w)
  then show ?case by simp
next
  case (2 R index rest w)
  then show ?case by simp
next
  case (3 R index t rest w)
  obtain err w1 where r: "request_update R (Set_priority index) (task_id t) w = (err, w1)"
    by (cases "request_update R (Set_priority index) (task_id t) w")
  have tr: "trace w1 = trace w @ [(Update (Set_priority index) (task_id t), err)]"
    using request_update_trace [OF r] by simp
  show ?case
  proof (cases err)
    case (Some msg)
    with r "3.prems" tr show ?thesis by simp
  next
    case None
    with r "3.prems" have "(Insert row, e) \<in> set (trace (snd (update_priorities R (index + 1) rest w1)))"
      by simp
    with "3.IH" [OF r [symmetric, unfolded None] refl] have "(Insert row, e) \<in> set (trace w1)"
      by blast
    with tr show ?thesis by simp
  qed
qed

lemma handleDragEnd_inserts:
  assumes "handleDragEnd R event (s, w) = Inr (s', w')" and "(Insert row, e) \<in> set (trace w')"
  shows "(Insert row, e) \<in> set (trace w)"
proof (cases "over event")
  case None
  with assms(1) show ?thesis by (simp add: handleDragEnd_def)
next
  case (Some over_id)
  show ?thesis
  proof (cases "active event \<noteq> over_id")
    case False
    with Some assms show ?thesis by (simp add: handleDragEnd_def)
  next
    case True
    let ?new = "arrayMove (tasks s) (findIndex (\<lambda>t. task_id t = active event) (tasks s))
                  (findIndex (\<lambda>t. task_id t = over_id) (tasks s))"
    obtain res w1 where u: "update_priorities R 0 ?new w = (res, w1)"
      by (cases "update_priorities R 0 ?new w")
    from assms(1) Some True u have "trace w' = trace w1"
      by (cases res) (auto simp: handleDragEnd_def Let_def)
    with assms(2) have "(Insert row, e) \<in> set (trace (snd (update_priorities R 0 ?new w)))"
      using u by simp
    then show ?thesis by (rule update_priorities_inserts)
  qed
qed

lemma addTask_inserts:
  assumes "addTask R (s, w) = (s', w')" and "(Insert row, e) \<in> set (trace w')"
  shows "(Insert row, e) \<in> set (trace w) \<or> (\<exists>u \<in> set (row_text row). \<not> isWhiteSpace u)"
proof (cases "trim (newTask s) = [] \<or> user s = None")
  case True
  with assms(1) have "w' = w" by (auto simp: addTask_def split: if_splits)
  with assms(2) show ?thesis by simp
next
  case False
  then obtain uid where u: "user s = Some uid" and ne: "trim (newTask s) \<noteq> []" by auto
  let ?row = "\<lparr>row_text = newTask s, row_notes = [],
               row_priority = int (length (tasks s)), row_user_id = uid\<rparr>"
  obtain res w1 where r: "request_insert R ?row w = (res, w1)"
    by (cases "request_insert R ?row w")
  note t = request_insert_trace [OF r]
  from assms(1) u ne r have "trace w' = trace w1"
    by (cases res) (auto simp: addTask_def)
  with t assms(2) have "(Insert row, e) \<in> set (trace w) \<or> row = ?row" by auto
  moreover from ne have "\<exists>u \<in> set (newTask s). \<not> isWhiteSpace u"
    by (simp add: trim_empty_iff)
  ultimately show ?thesis by auto
qed

lemma fetchTasks_inserts:
  "fetchTasks R (s, w) = (s', w') \<Longrightarrow> (Insert row, e) \<in> set (trace w') \<Longrightarrow>
     (Insert row, e) \<in> set (trace w)"
  by (auto simp: fetchTasks_def request_select_def split: option.splits prod.splits sum.splits)

lemma removeTask_inserts:
  "removeTask R ident (s, w) = (s', w') \<Longrightarrow> (Insert row, e) \<in> set (trace w') \<Longrightarrow>
     (Insert row, e) \<in> set (trace w)"
  by (auto simp: removeTask_def request_delete_def Let_def
      split: option.splits prod.splits if_splits)

lemma updateNotes_inserts:
  "updateNotes R v (s, w) = (s', w') \<Longrightarrow> (Insert row, e) \<in> set (trace w') \<Longrightarrow>
     (Insert row, e) \<in> set (trace w)"
  by (auto simp: updateNotes_def request_update_def split: option.splits prod.splits)

lemma perform_inserts:
  assumes "perform R a (s, w) = (s', w')" and "(Insert row, e) \<in> set (trace w')"
  shows "(Insert row, e) \<in> set (trace w) \<or> (\<exists>u \<in> set (row_text row). \<not> isWhiteSpace u)"
proof (cases a)
  case (Auth_change u)
  with assms show ?thesis by simp
next
  case Effect_fetch
  with assms fetchTasks_inserts [of R s w s' w' row e] show ?thesis by simp
next
  case (Change_newTask v)
  with assms show ?thesis by simp
next
  case Submit_newTask
  with assms addTask_inserts [of R s w s' w' row e] show ?thesis by simp
next
  case (Click_remove ident)
  with assms removeTask_inserts [of R ident s w s' w' row e] show ?thesis by simp
next
  case (Click_select t)
  with assms show ?thesis by simp
next
  case (Change_notes v)
  with assms updateNotes_inserts [of R v s w s' w' row e] show ?thesis by simp
next
  case (Drag_end event)
  show ?thesis
  proof (cases "handleDragEnd R event (s, w)")
    case (Inl err)
    with assms Drag_end show ?thesis by simp
  next
    case (Inr sw)
    with assms Drag_end have "handleDragEnd R event (s, w) = Inr (s', w')" by simp
    from handleDragEnd_inserts [OF this assms(2)] show ?thesis by simp
  qed
next
  case Click_toggleSort
  with assms show ?thesis by simp
next
  case (Click_adjacent dir)
  with assms show ?thesis by (cases "getAdjacentTask dir s") simp_all
qed

lemma run_inserts:
  "(Insert row, e) \<in> set (trace (snd (run R as sw))) \<Longrightarrow>
     (Insert row, e) \<in> set (trace (snd sw)) \<or> (\<exists>u \<in> set (row_text row). \<not> isWhiteSpace u)"
proof (induction as arbitrary: sw)
  case Nil
  then show ?case by simp
next
  case (Cons a as)
  obtain s w where sw: "sw = (s, w)" by (cases sw)
  obtain s' w' where p: "perform R a (s, w) = (s', w')" by (cases "perform R a (s, w)")
  from Cons.prems sw p have "(Insert row, e) \<in> set (trace (snd (run R as (s', w'))))" by simp
  from Cons.IH [OF this]
  have "(Insert row, e) \<in> set (trace w') \<or> (\<exists>u \<in> set (row_text row). \<not> isWhiteSpace u)" by simp
  with perform_inserts [OF p] sw show ?case by auto
qed

text \<open>
  Claim C10. When the new-task text is empty or made of whitespace only, or nobody is
  signed in, \<open>addTask\<close> issues no call and leaves the state as it is. Hence, whatever
  sequence of events the interface handles, every insert it issues carries a text with at
  least one character that is not whitespace.
\<close>

theorem addTask_guard:
  "((newTask s = [] \<or> (\<forall>u \<in> set (newTask s). isWhiteSpace u) \<or> user s = None) \<longrightarrow>
      addTask R (s, w) = (s, w)) \<and>
   (\<forall>row e. (Insert row, e) \<in> set (trace (snd (run R acts (s, w)))) \<longrightarrow>
      (Insert row, e) \<in> set (trace w) \<or> (\<exists>u \<in> set (row_text row). \<not> isWhiteSpace u))"
proof (intro conjI impI allI)
  assume "newTask s = [] \<or> (\<forall>u \<in> set (newTask s). isWhiteSpace u) \<or> user s = None"
  then have "trim (newTask s) = [] \<or> user s = None"
    by (auto simp: trim_empty_iff)
  then show "addTask R (s, w) = (s, w)" by (auto simp: addTask_def)
next
  fix row e
  assume "(Insert row, e) \<in> set (trace (snd (run R acts (s, w))))"
  from run_inserts [OF this]
  show "(Insert row, e) \<in> set (trace w) \<or> (\<exists>u \<in> set (row_text row). \<not> isWhiteSpace u)" by simp
qed

theorem addTask_guard_witness:
  "isWhiteSpace 0x20 \<and> isWhiteSpace 0x3000 \<and>
   addTask example_remote (example_app\<lparr>newTask := [0x20, 0x3000]\<rparr>, example_world 5) =
     (example_app\<lparr>newTask := [0x20, 0x3000]\<rparr>, example_world 5) \<and>
   addTask example_remote (example_app\<lparr>user := None\<rparr>, example_world 5) =
     (example_app\<lparr>user := None\<rparr>, example_world 5) \<and>
   trace (snd (run example_remote example_actions (example_app, example_world 5))) =
     [(Insert \<lparr>row_text = [0x20, 0x78], row_notes = [], row_priority = 3, row_user_id = ''u1''\<rparr>,
       None)] \<and>
   (\<exists>u \<in> set [0x20, 0x78]. \<not> isWhiteSpace u)"
proof -
  let ?row = "\<lparr>row_text = [0x20, 0x78], row_notes = [], row_priority = 3, row_user_id = ''u1''\<rparr>"
  have ws: "isWhiteSpace 0x20" "isWhiteSpace 0x3000"
    by (simp_all add: isWhiteSpace_def)
  then have h1: "\<forall>u \<in> set (newTask (example_app\<lparr>newTask := [0x20, 0x3000]\<rparr>)). isWhiteSpace u"
    by simp
  have a1: "addTask example_remote (example_app\<lparr>newTask := [0x20, 0x3000]\<rparr>, example_world 5) =
     (example_app\<lparr>newTask := [0x20, 0x3000]\<rparr>, example_world 5)"
    using addTask_guard [of "example_app\<lparr>newTask := [0x20, 0x3000]\<rparr>" example_remote "example_world 5"] h1
    by blast
  have a2: "addTask example_remote (example_app\<lparr>user := None\<rparr>, example_world 5) =
     (example_app\<lparr>user := None\<rparr>, example_world 5)"
    using addTask_guard [of "example_app\<lparr>user := None\<rparr>" example_remote "example_world 5"]
    by simp
  have t: "trace (snd (run example_remote example_actions (example_app, example_world 5))) =
             [(Insert ?row, None)]"
    by (simp add: example_actions_def addTask_def request_insert_def example_remote_def
        example_world_def example_app_def error_of_def trim_def isWhiteSpace_def)
  then have "(Insert ?row, None) \<in> set (trace (snd (run example_remote example_actions (example_app, example_world 5))))"
    by simp
  moreover have "(Insert ?row, None) \<notin> set (trace (example_world 5))"
    by (simp add: example_world_def)
  ultimately have "\<exists>u \<in> set (row_text ?row). \<not> isWhiteSpace u"
    using addTask_guard [of example_app example_remote "example_world 5" example_actions]
    by blast
  then have "\<exists>u \<in> set [0x20, 0x78]. \<not> isWhiteSpace u" by simp
  with ws a1 a2 t show ?thesis by blast
qed

section \<open>Reordering by drag and drop\<close>

lemma relocate_props:
  assumes "i < length xs" and "j < length xs"
  defines "ys \<equiv> take i xs @ drop (Suc i) xs"
  defines "new \<equiv> take j ys @ [xs ! i] @ drop j ys"
  shows "length new = length xs" and "new ! j = xs ! i"
    and "take j new @ drop (Suc j) new = ys"
proof -
  have ly: "length ys = length xs - 1" using assms(1) by (simp add: ys_def)
  then have jy: "j \<le> length ys" using assms(2) by simp
  then have lt: "length (take j ys) = j" by simp
  show "length new = length xs" using ly jy assms(1) by (simp add: new_def)
  show "new ! j = xs ! i"
    unfolding new_def using lt by (metis append_Cons nth_append_length)
  have "take j new = take j ys" using lt by (simp add: new_def)
  moreover have "drop (Suc j) new = drop j ys" using lt jy by (simp add: new_def)
  ultimately show "take j new @ drop (Suc j) new = ys" by simp
qed

lemma handleDragEnd_unfold:
  assumes "over event = Some over_id" and "active event \<noteq> over_id"
    and "update_priorities R 0
           (arrayMove (tasks s) (findIndex (\<lambda>t. task_id t = active event) (tasks s))
              (findIndex (\<lambda>t. task_id t = over_id) (tasks s))) w = (res, w1)"
  shows "handleDragEnd R event (s, w) =
           (case res of
              Some e \<Rightarrow> Inr (s, log_error ''Error updating priorities:'' e w1)
            | None \<Rightarrow>
                Inr (s\<lparr>tasks := map the
                        (arrayMove (tasks s) (findIndex (\<lambda>t. task_id t = active event) (tasks s))
                           (findIndex (\<lambda>t. task_id t = over_id) (tasks s)))\<rparr>, w1))"
  using assms by (simp add: handleDragEnd_def Let_def split: option.splits)

lemma request_update_store:
  "request_update R p ident w = (err, w') \<Longrightarrow> update_one R p ident (store w) = (err, store w')"
  by (auto simp: request_update_def split: prod.splits)

lemma update_priorities_rows_kept:
  assumes contract: "\<And>p ident r r'. update_one R (Set_priority p) ident r = (None, r') \<Longrightarrow>
             rows r' = map (\<lambda>t. if task_id t = ident then t\<lparr>priority := p\<rparr> else t) (rows r)"
  shows "update_priorities R index ots w = (None, w') \<Longrightarrow>
     length (rows (store w')) = length (rows (store w)) \<and>
     (\<forall>m < length (rows (store w)).
        task_id (rows (store w') ! m) = task_id (rows (store w) ! m) \<and>
        (task_id (rows (store w) ! m) \<notin> (\<lambda>ot. task_id (the ot)) ` set ots \<longrightarrow>
           rows (store w') ! m = rows (store w) ! m))"
proof (induction ots arbitrary: index w)
  case Nil
  then show ?case by simp
next
  case (Cons ot rest)
  from Cons.prems obtain t where ot: "ot = Some t" by (cases ot) simp_all
  from Cons.prems ot obtain w1 where
    r: "request_update R (Set_priority index) (task_id t) w = (None, w1)" and
    u: "update_priorities R (index + 1) rest w1 = (None, w')"
    by (auto split: prod.splits option.splits)
  note ih = Cons.IH [OF u]
  have r1: "rows (store w1) =
      map (\<lambda>x. if task_id x = task_id t then x\<lparr>priority := index\<rparr> else x) (rows (store w))"
    using contract [OF request_update_store [OF r]] .
  then have l1: "length (rows (store w1)) = length (rows (store w))" by simp
  have id1: "\<And>m. m < length (rows (store w)) \<Longrightarrow>
               task_id (rows (store w1) ! m) = task_id (rows (store w) ! m)"
    unfolding r1 by simp
  have keep1: "\<And>m. m < length (rows (store w)) \<Longrightarrow> task_id (rows (store w) ! m) \<noteq> task_id t \<Longrightarrow>
               rows (store w1) ! m = rows (store w) ! m"
    unfolding r1 by simp
  show ?case
  proof (intro conjI allI impI)
    show "length (rows (store w')) = length (rows (store w))" using ih l1 by simp
  next
    fix m assume m: "m < length (rows (store w))"
    then show "task_id (rows (store w') ! m) = task_id (rows (store w) ! m)"
      using ih l1 id1 by simp
  next
    fix m assume m: "m < length (rows (store w))"
      and n: "task_id (rows (store w) ! m) \<notin> (\<lambda>ot. task_id (the ot)) ` set (ot # rest)"
    with ot have a: "task_id (rows (store w) ! m) \<noteq> task_id t"
      and b: "task_id (rows (store w) ! m) \<notin> (\<lambda>ot. task_id (the ot)) ` set rest"
      by auto
    from b id1 [OF m] have "task_id (rows (store w1) ! m) \<notin> (\<lambda>ot. task_id (the ot)) ` set rest"
      by simp
    with ih m l1 have "rows (store w') ! m = rows (store w1) ! m" by simp
    with keep1 [OF m a] show "rows (store w') ! m = rows (store w) ! m" by simp
  qed
qed

lemma update_priorities_rows_set:
  assumes contract: "\<And>p ident r r'. update_one R (Set_priority p) ident r = (None, r') \<Longrightarrow>
             rows r' = map (\<lambda>t. if task_id t = ident then t\<lparr>priority := p\<rparr> else t) (rows r)"
  shows "update_priorities R index ots w = (None, w') \<Longrightarrow>
     distinct (map (\<lambda>ot. task_id (the ot)) ots) \<Longrightarrow>
     (\<forall>m < length (rows (store w)). \<forall>k < length ots.
        task_id (rows (store w) ! m) = task_id (the (ots ! k)) \<longrightarrow>
          priority (rows (store w') ! m) = index + int k)"
proof (induction ots arbitrary: index w)
  case Nil
  then show ?case by simp
next
  case (Cons ot rest)
  from Cons.prems(1) obtain t where ot: "ot = Some t" by (cases ot) simp_all
  from Cons.prems(1) ot obtain w1 where
    r: "request_update R (Set_priority index) (task_id t) w = (None, w1)" and
    u: "update_priorities R (index + 1) rest w1 = (None, w')"
    by (auto split: prod.splits option.splits)
  from Cons.prems(2) ot have d: "distinct (map (\<lambda>ot. task_id (the ot)) rest)"
    and nt: "task_id t \<notin> (\<lambda>ot. task_id (the ot)) ` set rest"
    by simp_all
  note ih = Cons.IH [OF u d]
  note kept = update_priorities_rows_kept [of R rows, OF contract u]
  have r1: "rows (store w1) =
      map (\<lambda>x. if task_id x = task_id t then x\<lparr>priority := index\<rparr> else x) (rows (store w))"
    using contract [OF request_update_store [OF r]] .
  then have l1: "length (rows (store w1)) = length (rows (store w))" by simp
  show ?case
  proof (intro allI impI)
    fix m k
    assume m: "m < length (rows (store w))" and k: "k < length (ot # rest)"
      and eq: "task_id (rows (store w) ! m) = task_id (the ((ot # rest) ! k))"
    have id1: "task_id (rows (store w1) ! m) = task_id (rows (store w) ! m)"
      unfolding r1 using m by simp
    show "priority (rows (store w') ! m) = index + int k"
    proof (cases k)
      case 0
      with eq ot have e0: "task_id (rows (store w) ! m) = task_id t" by simp
      then have "rows (store w1) ! m = (rows (store w) ! m)\<lparr>priority := index\<rparr>"
        unfolding r1 using m by simp
      moreover from e0 id1 nt have "task_id (rows (store w1) ! m) \<notin> (\<lambda>ot. task_id (the ot)) ` set rest"
        by simp
      with kept m l1 have "rows (store w') ! m = rows (store w1) ! m" by simp
      ultimately show ?thesis using 0 by simp
    next
      case (Suc k')
      with k eq have k': "k' < length rest"
        and "task_id (rows (store w) ! m) = task_id (the (rest ! k'))" by simp_all
      with id1 have "task_id (rows (store w1) ! m) = task_id (the (rest ! k'))" by simp
      with ih m l1 k' have "priority (rows (store w') ! m) = index + 1 + int k'" by simp
      with Suc show ?thesis by simp
    qed
  qed
qed

lemma relocate_mset:
  assumes "i < length xs" and "j < length xs"
  shows "mset (take j (take i xs @ drop (Suc i) xs) @ [xs ! i] @ drop j (take i xs @ drop (Suc i) xs))
           = mset xs"
proof -
  let ?ys = "take i xs @ drop (Suc i) xs"
  have "mset (take j ?ys @ [xs ! i] @ drop j ?ys) = mset (take j ?ys @ drop j ?ys) + {#xs ! i#}"
    by simp
  also have "\<dots> = mset ?ys + {#xs ! i#}" by (simp only: append_take_drop_id)
  also have "\<dots> = mset (take i xs @ xs ! i # drop (Suc i) xs)" by simp
  also have "\<dots> = mset xs" using assms(1) by (simp only: id_take_nth_drop [symmetric])
  finally show ?thesis .
qed

lemma relocate_distinct:
  assumes "i < length xs" and "j < length xs" and "distinct (map f xs)"
  shows "distinct (map f (take j (take i xs @ drop (Suc i) xs) @ [xs ! i]
                          @ drop j (take i xs @ drop (Suc i) xs)))"
proof -
  have "mset (map f (take j (take i xs @ drop (Suc i) xs) @ [xs ! i]
                          @ drop j (take i xs @ drop (Suc i) xs))) = mset (map f xs)"
    using relocate_mset [OF assms(1,2)] by (metis mset_map)
  then show ?thesis using assms(3) by (metis mset_eq_imp_distinct_iff)
qed

text \<open>
  Claim C1, as the code has it. Take a drag end whose source and target identifiers
  differ, with \<open>i\<close> and \<open>j\<close> the positions \<open>findIndex\<close> gives them in the list, and suppose
  that every call issued during the reorder came back without error. Then the list
  committed to the state is the old one with the task of position \<open>i\<close> moved to position
  \<open>j\<close>: same length, that task at \<open>j\<close>, and the old list without position \<open>i\<close> equal to the
  new list without position \<open>j\<close>, so that all other tasks keep their relative order. The
  priority is set in the store, not in the list: the calls issued are, in order of the
  new list, one update per task that sets its priority to its 0-based index there, while
  the records of the committed list are those of the old list, each with the priority it
  had (the moved task among them). No other cell of the state has changed. When moreover
  the store carries out an accepted priority update (the rows of that identifier get the
  priority, all else stays; \<open>rows\<close> reads the rows off the store) and the identifiers of the
  list are distinct, then afterwards every row of the store with the identifier of the
  task at position \<open>k\<close> of the new list has priority \<open>k\<close>.
\<close>

theorem handleDragEnd_success:
  assumes "over event = Some over_id" and "active event \<noteq> over_id"
    and "i < length (tasks s)" and "task_id (tasks s ! i) = active event"
    and "\<forall>k<i. task_id (tasks s ! k) \<noteq> active event"
    and "j < length (tasks s)" and "task_id (tasks s ! j) = over_id"
    and "\<forall>k<j. task_id (tasks s ! k) \<noteq> over_id"
    and "handleDragEnd R event (s, w) = Inr (s', w')"
    and "\<forall>(c, e) \<in> set (drop (length (trace w)) (trace w')). e = None"
  shows "length (tasks s') = length (tasks s) \<and>
         tasks s' ! j = tasks s ! i \<and>
         take j (tasks s') @ drop (Suc j) (tasks s') = take i (tasks s) @ drop (Suc i) (tasks s) \<and>
         mset (tasks s') = mset (tasks s) \<and>
         priority (tasks s' ! j) = priority (tasks s ! i) \<and>
         trace w' = trace w @
           map (\<lambda>k. (Update (Set_priority (int k)) (task_id (tasks s' ! k)), None))
               [0..<length (tasks s')] \<and>
         s' = s\<lparr>tasks := tasks s'\<rparr> \<and>
         ((\<forall>p ident r r'. update_one R (Set_priority p) ident r = (None, r') \<longrightarrow>
              rows r' = map (\<lambda>t. if task_id t = ident then t\<lparr>priority := p\<rparr> else t) (rows r)) \<and>
          distinct (map task_id (tasks s)) \<longrightarrow>
            (\<forall>k < length (tasks s'). \<forall>row \<in> set (rows (store w')).
               task_id row = task_id (tasks s' ! k) \<longrightarrow> priority row = int k))"
proof -
  let ?xs = "tasks s"
  let ?ys = "take i ?xs @ drop (Suc i) ?xs"
  define new where "new = take j ?ys @ [?xs ! i] @ drop j ?ys"
  have fi: "findIndex (\<lambda>t. task_id t = active event) ?xs = int i"
    using assms(3-5) by (intro findIndex_first) simp_all
  have fj: "findIndex (\<lambda>t. task_id t = over_id) ?xs = int j"
    using assms(6-8) by (intro findIndex_first) simp_all
  have am: "arrayMove ?xs (int i) (int j) = map Some new"
    unfolding new_def using assms(3,6) by (rule arrayMove_in_range)
  obtain res w1 where u: "update_priorities R 0 (map Some new) w = (res, w1)"
    by (cases "update_priorities R 0 (map Some new) w")
  then have u0: "update_priorities R 0
           (arrayMove ?xs (findIndex (\<lambda>t. task_id t = active event) ?xs)
              (findIndex (\<lambda>t. task_id t = over_id) ?xs)) w = (res, w1)"
    by (simp only: fi fj am)
  have mt: "map the (map Some new) = new" by (simp add: o_def)
  from handleDragEnd_unfold [OF assms(1,2) u0]
  have h: "handleDragEnd R event (s, w) =
           (case res of
              Some e \<Rightarrow> Inr (s, log_error ''Error updating priorities:'' e w1)
            | None \<Rightarrow> Inr (s\<lparr>tasks := new\<rparr>, w1))"
    by (simp only: fi fj am mt)
  have nth: "\<And>k. k < length new \<Longrightarrow> map Some new ! k = Some (new ! k)" by simp
  have res: "res = None"
  proof (rule ccontr)
    assume "res \<noteq> None"
    then obtain e where e: "res = Some e" by auto
    with h assms(9) have w': "trace w' = trace w1" by simp
    from update_priorities_failure [OF u [unfolded e]]
    obtain n where n: "n < length (map Some new)"
      and c: "case map Some new ! n of
           None \<Rightarrow> e = TypeError \<and>
             trace w1 = trace w @
               map (\<lambda>k. (Update (Set_priority (0 + int k)) (task_id (the (map Some new ! k))), None))
                   [0..<n]
         | Some t \<Rightarrow> \<exists>msg. e = Remote_error msg \<and>
             trace w1 = trace w @
               map (\<lambda>k. (Update (Set_priority (0 + int k)) (task_id (the (map Some new ! k))), None))
                   [0..<n]
               @ [(Update (Set_priority (0 + int n)) (task_id t), Some msg)]"
      by blast
    from n have "map Some new ! n = Some (new ! n)" by simp
    with c obtain msg pre where
      "trace w1 = trace w @ pre @ [(Update (Set_priority (0 + int n)) (task_id (new ! n)), Some msg)]"
      by auto
    with w' have "(Update (Set_priority (0 + int n)) (task_id (new ! n)), Some msg)
                    \<in> set (drop (length (trace w)) (trace w'))"
      by simp
    with assms(10) show False by blast
  qed
  with h assms(9) have s': "s' = s\<lparr>tasks := new\<rparr>" and w': "w' = w1" by simp_all
  then have ts: "tasks s' = new" by simp
  from update_priorities_success [OF u [unfolded res]]
  have "trace w1 = trace w @
       map (\<lambda>k. (Update (Set_priority (0 + int k)) (task_id (the (map Some new ! k))), None))
           [0..<length (map Some new)]"
    by blast
  also have "map (\<lambda>k. (Update (Set_priority (0 + int k)) (task_id (the (map Some new ! k))), None))
           [0..<length (map Some new)] =
        map (\<lambda>k. (Update (Set_priority (int k)) (task_id (new ! k)), None)) [0..<length new]"
    by (rule map_cong) simp_all
  finally have tr: "trace w' = trace w @
      map (\<lambda>k. (Update (Set_priority (int k)) (task_id (tasks s' ! k)), None))
          [0..<length (tasks s')]"
    unfolding w' ts .
  note p = relocate_props [OF assms(3,6), folded new_def]
  from p(1) ts have "length (tasks s') = length ?xs" by simp
  moreover from p(2) ts have "tasks s' ! j = ?xs ! i" by simp
  moreover from p(3) ts have "take j (tasks s') @ drop (Suc j) (tasks s') = ?ys" by simp
  moreover from relocate_mset [OF assms(3,6), folded new_def] ts
  have "mset (tasks s') = mset ?xs" by simp
  moreover from p(2) ts have "priority (tasks s' ! j) = priority (?xs ! i)" by simp
  moreover from s' ts have "s' = s\<lparr>tasks := tasks s'\<rparr>" by simp
  moreover have "\<forall>k < length (tasks s'). \<forall>row \<in> set (rows (store w')).
               task_id row = task_id (tasks s' ! k) \<longrightarrow> priority row = int k"
    if contract: "\<forall>p ident r r'. update_one R (Set_priority p) ident r = (None, r') \<longrightarrow>
              rows r' = map (\<lambda>t. if task_id t = ident then t\<lparr>priority := p\<rparr> else t) (rows r)"
      and dist: "distinct (map task_id (tasks s))"
  proof (intro allI ballI impI)
    fix k row
    assume k: "k < length (tasks s')" and row: "row \<in> set (rows (store w'))"
      and eq: "task_id row = task_id (tasks s' ! k)"
    have c: "\<And>p ident r r'. update_one R (Set_priority p) ident r = (None, r') \<Longrightarrow>
              rows r' = map (\<lambda>t. if task_id t = ident then t\<lparr>priority := p\<rparr> else t) (rows r)"
      using contract by blast
    have "distinct (map task_id new)"
      unfolding new_def using assms(3,6) dist by (rule relocate_distinct)
    then have d: "distinct (map (\<lambda>ot. task_id (the ot)) (map Some new))"
      by (simp add: o_def)
    note kept = update_priorities_rows_kept [of R rows, OF c u [unfolded res]]
    note set = update_priorities_rows_set [of R rows, OF c u [unfolded res] d]
    from row w' obtain m where m: "m < length (rows (store w1))" and rm: "rows (store w1) ! m = row"
      by (auto simp: in_set_conv_nth)
    from m kept have m0: "m < length (rows (store w))" by simp
    with kept have "task_id (rows (store w1) ! m) = task_id (rows (store w) ! m)" by blast
    with rm eq ts have "task_id (rows (store w) ! m) = task_id (new ! k)" by simp
    moreover from k ts have kn: "k < length (map Some new)" by simp
    ultimately have "task_id (rows (store w) ! m) = task_id (the (map Some new ! k))" by simp
    with set m0 kn have "priority (rows (store w1) ! m) = 0 + int k" by blast
    with rm show "priority row = int k" by simp
  qed
  ultimately show ?thesis using tr by blast
qed

theorem handleDragEnd_success_witness:
  "over example_drag = Some ''c'' \<and> active example_drag \<noteq> ''c'' \<and>
   0 < length (tasks example_app) \<and> task_id (tasks example_app ! 0) = active example_drag \<and>
   2 < length (tasks example_app) \<and> task_id (tasks example_app ! 2) = ''c'' \<and>
   task_id (tasks example_app ! 0) \<noteq> ''c'' \<and> task_id (tasks example_app ! 1) \<noteq> ''c'' \<and>
   distinct (map task_id (tasks example_app)) \<and>
   handleDragEnd example_table example_drag (example_app, example_table_world) =
     Inr (example_app\<lparr>tasks := [example_task ''b'' 1, example_task ''c'' 2, example_task ''a'' 0]\<rparr>,
          \<lparr>store = [example_task ''a'' 2, example_task ''b'' 0, example_task ''c'' 1],
           trace = [(Update (Set_priority 0) ''b'', None), (Update (Set_priority 1) ''c'', None),
                    (Update (Set_priority 2) ''a'', None)],
           console = []\<rparr>) \<and>
   [example_task ''b'' 1, example_task ''c'' 2, example_task ''a'' 0] ! 2 = tasks example_app ! 0 \<and>
   take 2 [example_task ''b'' 1, example_task ''c'' 2, example_task ''a'' 0] @
     drop (Suc 2) [example_task ''b'' 1, example_task ''c'' 2, example_task ''a'' 0] =
     take 0 (tasks example_app) @ drop (Suc 0) (tasks example_app) \<and>
   priority (example_task ''a'' 2) = 2"
proof -
  let ?new = "[example_task ''b'' 1, example_task ''c'' 2, example_task ''a'' 0]"
  let ?w' = "\<lparr>store = [example_task ''a'' 2, example_task ''b'' 0, example_task ''c'' 1],
           trace = [(Update (Set_priority 0) ''b'', None), (Update (Set_priority 1) ''c'', None),
                    (Update (Set_priority 2) ''a'', None)],
           console = []\<rparr>"
  have h1: "over example_drag = Some ''c''" and h2: "active example_drag \<noteq> ''c''"
    by (simp_all add: example_drag_def)
  have h3: "0 < length (tasks example_app)"
    and h4: "task_id (tasks example_app ! 0) = active example_drag"
    and h5: "\<forall>k<0. task_id (tasks example_app ! k) \<noteq> active example_drag"
    and h6: "2 < length (tasks example_app)"
    and h7: "task_id (tasks example_app ! 2) = ''c''"
    by (simp_all add: example_app_def example_task_def example_drag_def)
  have n0: "task_id (tasks example_app ! 0) \<noteq> ''c''"
    and n1: "task_id (tasks example_app ! 1) \<noteq> ''c''"
    by (simp_all add: example_app_def example_task_def)
  then have h8: "\<forall>k<2. task_id (tasks example_app ! k) \<noteq> ''c''"
    by (simp add: numeral_2_eq_2 All_less_Suc)
  have h9: "handleDragEnd example_table example_drag (example_app, example_table_world) =
              Inr (example_app\<lparr>tasks := ?new\<rparr>, ?w')"
    by code_simp
  have h10: "\<forall>(c, e) \<in> set (drop (length (trace example_table_world)) (trace ?w')). e = None"
    by (simp add: example_table_world_def)
  have contract: "\<forall>p ident r r'. update_one example_table (Set_priority p) ident r = (None, r') \<longrightarrow>
      id r' = map (\<lambda>t. if task_id t = ident then t\<lparr>priority := p\<rparr> else t) (id r)"
    by (auto simp: example_table_def)
  have dist: "distinct (map task_id (tasks example_app))"
    by (simp add: example_app_def example_task_def)
  have sel: "tasks (example_app\<lparr>tasks := ?new\<rparr>) = ?new" by simp
  note th = handleDragEnd_success [OF h1 h2 h3 h4 h5 h6 h7 h8 h9 h10, of id]
  from th have "tasks (example_app\<lparr>tasks := ?new\<rparr>) ! 2 = tasks example_app ! 0"
    and "take 2 (tasks (example_app\<lparr>tasks := ?new\<rparr>)) @ drop (Suc 2) (tasks (example_app\<lparr>tasks := ?new\<rparr>)) =
         take 0 (tasks example_app) @ drop (Suc 0) (tasks example_app)"
    by blast+
  then have a: "?new ! 2 = tasks example_app ! 0"
    and b: "take 2 ?new @ drop (Suc 2) ?new = take 0 (tasks example_app) @ drop (Suc 0) (tasks example_app)"
    by (simp_all only: sel)
  from th contract dist
  have all: "\<forall>k < length (tasks (example_app\<lparr>tasks := ?new\<rparr>)). \<forall>row \<in> set (id (store ?w')).
               task_id row = task_id (tasks (example_app\<lparr>tasks := ?new\<rparr>) ! k) \<longrightarrow> priority row = int k"
    by blast
  have k2: "2 < length (tasks (example_app\<lparr>tasks := ?new\<rparr>))" by simp
  have mem: "example_task ''a'' 2 \<in> set (id (store ?w'))" by simp
  have ideq: "task_id (example_task ''a'' 2) = task_id (tasks (example_app\<lparr>tasks := ?new\<rparr>) ! 2)"
    by (simp add: example_task_def)
  from all k2 mem ideq have "priority (example_task ''a'' 2) = int 2" by blast
  then have c: "priority (example_task ''a'' 2) = 2" by simp
  from h1 h2 h3 h4 h6 h7 n0 n1 dist h9 a b c show ?thesis by blast
qed

text \<open>
  The priority field of the committed records is not the index: after the reorder above,
  every update accepted, the list holds the priorities 1, 2, 0 at the positions 0, 1, 2,
  while the store holds 0, 1, 2 for the same three tasks.
\<close>

theorem handleDragEnd_local_priority_counterexample:
  "over example_drag = Some ''c'' \<and> active example_drag \<noteq> ''c'' \<and>
   map snd (trace (snd (projr (handleDragEnd example_table example_drag
                                 (example_app, example_table_world))))) = [None, None, None] \<and>
   map task_id (tasks (fst (projr (handleDragEnd example_table example_drag
                                     (example_app, example_table_world))))) = [''b'', ''c'', ''a''] \<and>
   map priority (tasks (fst (projr (handleDragEnd example_table example_drag
                                      (example_app, example_table_world))))) = [1, 2, 0] \<and>
   priority (tasks (fst (projr (handleDragEnd example_table example_drag
                                  (example_app, example_table_world)))) ! 0) \<noteq> 0"
  by code_simp

lemma handleDragEnd_identity:
  assumes "handleDragEnd R event (s, w) = Inr (s', w')" and "trace w' \<noteq> trace w"
  shows "\<exists>over_id. over event = Some over_id \<and> active event \<noteq> over_id"
  using assms by (auto simp: handleDragEnd_def split: option.splits if_splits)

text \<open>
  Claim C2. When some call issued during a reorder came back with an error, that call is
  the priority update of a position \<open>n\<close> of the new sequence and is the last call of the
  reorder: before it come the accepted updates of the positions below \<open>n\<close>, after it
  nothing, neither an update for a later position nor a call undoing the accepted ones.
  The React state, the task list included, is what it was before.
\<close>

theorem handleDragEnd_failure:
  assumes "handleDragEnd R event (s, w) = Inr (s', w')"
    and "(c, Some e) \<in> set (drop (length (trace w)) (trace w'))"
  shows "s' = s \<and>
         (\<exists>over_id n t.
            over event = Some over_id \<and> active event \<noteq> over_id \<and>
            n < length (arrayMove (tasks s) (findIndex (\<lambda>t. task_id t = active event) (tasks s))
                          (findIndex (\<lambda>t. task_id t = over_id) (tasks s))) \<and>
            arrayMove (tasks s) (findIndex (\<lambda>t. task_id t = active event) (tasks s))
                (findIndex (\<lambda>t. task_id t = over_id) (tasks s)) ! n = Some t \<and>
            c = Update (Set_priority (int n)) (task_id t) \<and>
            trace w' = trace w @
              map (\<lambda>k. (Update (Set_priority (int k))
                          (task_id (the (arrayMove (tasks s)
                             (findIndex (\<lambda>t. task_id t = active event) (tasks s))
                             (findIndex (\<lambda>t. task_id t = over_id) (tasks s)) ! k))), None))
                  [0..<n]
              @ [(c, Some e)])"
proof -
  from assms(2) have "drop (length (trace w)) (trace w') \<noteq> []" by auto
  then have "trace w' \<noteq> trace w" by auto
  from handleDragEnd_identity [OF assms(1) this]
  obtain over_id where ov: "over event = Some over_id" and ne: "active event \<noteq> over_id" by blast
  define new where "new = arrayMove (tasks s) (findIndex (\<lambda>t. task_id t = active event) (tasks s))
                          (findIndex (\<lambda>t. task_id t = over_id) (tasks s))"
  obtain res w1 where u: "update_priorities R 0 new w = (res, w1)"
    by (cases "update_priorities R 0 new w")
  from handleDragEnd_unfold [OF ov ne u [unfolded new_def]]
  have h: "handleDragEnd R event (s, w) =
           (case res of
              Some e \<Rightarrow> Inr (s, log_error ''Error updating priorities:'' e w1)
            | None \<Rightarrow> Inr (s\<lparr>tasks := map the new\<rparr>, w1))"
    by (simp only: new_def)
  show ?thesis
  proof (cases res)
    case None
    with h assms(1) have "w' = w1" by simp
    with update_priorities_success [OF u [unfolded None]]
    have "drop (length (trace w)) (trace w') =
            map (\<lambda>k. (Update (Set_priority (0 + int k)) (task_id (the (new ! k))), None))
              [0..<length new]"
      by simp
    with assms(2) show ?thesis by auto
  next
    case (Some err)
    with h assms(1) have s': "s' = s" and w': "trace w' = trace w1" by simp_all
    from update_priorities_failure [OF u [unfolded Some]]
    obtain n where n: "n < length new"
      and c: "case new ! n of
           None \<Rightarrow> err = TypeError \<and>
             trace w1 = trace w @
               map (\<lambda>k. (Update (Set_priority (0 + int k)) (task_id (the (new ! k))), None)) [0..<n]
         | Some t \<Rightarrow> \<exists>msg. err = Remote_error msg \<and>
             trace w1 = trace w @
               map (\<lambda>k. (Update (Set_priority (0 + int k)) (task_id (the (new ! k))), None)) [0..<n]
               @ [(Update (Set_priority (0 + int n)) (task_id t), Some msg)]"
      by blast
    show ?thesis
    proof (cases "new ! n")
      case None
      with c w' have "drop (length (trace w)) (trace w') =
            map (\<lambda>k. (Update (Set_priority (0 + int k)) (task_id (the (new ! k))), None)) [0..<n]"
        by simp
      with assms(2) show ?thesis by auto
    next
      case (Some t)
      with c w' obtain msg where
        tr: "trace w' = trace w @
               map (\<lambda>k. (Update (Set_priority (int k)) (task_id (the (new ! k))), None)) [0..<n]
               @ [(Update (Set_priority (int n)) (task_id t), Some msg)]"
        by auto
      with assms(2) have "(c, Some e) = (Update (Set_priority (int n)) (task_id t), Some msg)"
        by auto
      then have "c = Update (Set_priority (int n)) (task_id t)" and "msg = e" by simp_all
      with tr s' ov ne n Some show ?thesis
        unfolding new_def by blast
    qed
  qed
qed

theorem handleDragEnd_failure_witness:
  "handleDragEnd example_remote example_drag (example_app, example_world 1) =
     Inr (example_app,
          \<lparr>store = 0,
           trace = [(Update (Set_priority 0) ''b'', None),
                    (Update (Set_priority 1) ''c'', Some ''refused'')],
           console = [(''Error updating priorities:'', Remote_error ''refused'')]\<rparr>) \<and>
   (Update (Set_priority 1) ''c'', Some ''refused'') \<in>
     set (drop (length (trace (example_world 1)))
            [(Update (Set_priority 0) ''b'', None),
             (Update (Set_priority 1) ''c'', Some ''refused'')]) \<and>
   fst (projr (handleDragEnd example_remote example_drag (example_app, example_world 1))) = example_app"
proof -
  let ?w' = "\<lparr>store = 0::nat,
           trace = [(Update (Set_priority 0) ''b'', None),
                    (Update (Set_priority 1) ''c'', Some ''refused'')],
           console = [(''Error updating priorities:'', Remote_error ''refused'')]\<rparr>"
  have r: "handleDragEnd example_remote example_drag (example_app, example_world 1) =
             Inr (example_app, ?w')"
    by code_simp
  have m: "(Update (Set_priority 1) ''c'', Some ''refused'') \<in>
             set (drop (length (trace (example_world 1))) (trace ?w'))"
    by (simp add: example_world_def)
  obtain s' w' where p: "projr (handleDragEnd example_remote example_drag (example_app, example_world 1)) = (s', w')"
    by (cases "projr (handleDragEnd example_remote example_drag (example_app, example_world 1))")
  with r have eq: "handleDragEnd example_remote example_drag (example_app, example_world 1) = Inr (s', w')"
    and w': "w' = ?w'" by simp_all
  from handleDragEnd_failure [OF eq m [folded w']] have "s' = example_app" by blast
  with p have "fst (projr (handleDragEnd example_remote example_drag (example_app, example_world 1))) = example_app"
    by simp
  with r m show ?thesis by simp
qed

end
